theory Spec2Isabelle
  imports Complex_Main "HOL-Library.Word" "HOL-Library.Multiset"
begin

section \<open>Coordinates, shapes and regions\<close>

text \<open>
  The five labelled axes of \<open>Point5D.LABELS\<close>. Points and shapes carry one signed
  integer per axis; a shape is a point whose components are extents.
\<close>

datatype axis = X | Y | Z | T | C

record point5d =
  p_x :: int
  p_y :: int
  p_z :: int
  p_t :: int
  p_c :: int

type_synonym shape5d = point5d

fun coord :: "axis \<Rightarrow> point5d \<Rightarrow> int" where
  "coord X p = p_x p"
| "coord Y p = p_y p"
| "coord Z p = p_z p"
| "coord T p = p_t p"
| "coord C p = p_c p"

fun updated :: "point5d \<Rightarrow> axis \<Rightarrow> int \<Rightarrow> point5d" where
  "updated p X v = p\<lparr>p_x := v\<rparr>"
| "updated p Y v = p\<lparr>p_y := v\<rparr>"
| "updated p Z v = p\<lparr>p_z := v\<rparr>"
| "updated p T v = p\<lparr>p_t := v\<rparr>"
| "updated p C v = p\<lparr>p_c := v\<rparr>"

definition Point5D_zero :: point5d where
  "Point5D_zero = \<lparr>p_x = 0, p_y = 0, p_z = 0, p_t = 0, p_c = 0\<rparr>"

definition point_add :: "point5d \<Rightarrow> point5d \<Rightarrow> point5d" where
  "point_add a b = \<lparr>p_x = p_x a + p_x b, p_y = p_y a + p_y b, p_z = p_z a + p_z b,
                    p_t = p_t a + p_t b, p_c = p_c a + p_c b\<rparr>"

definition point_sub :: "point5d \<Rightarrow> point5d \<Rightarrow> point5d" where
  "point_sub a b = \<lparr>p_x = p_x a - p_x b, p_y = p_y a - p_y b, p_z = p_z a - p_z b,
                    p_t = p_t a - p_t b, p_c = p_c a - p_c b\<rparr>"

definition point_scale :: "point5d \<Rightarrow> int \<Rightarrow> point5d" where
  "point_scale a k = \<lparr>p_x = p_x a * k, p_y = p_y a * k, p_z = p_z a * k,
                      p_t = p_t a * k, p_c = p_c a * k\<rparr>"

text \<open>
  Ordering of points and shapes is component-wise: \<open>a >= b\<close> holds when every
  component of \<open>a\<close> is at least the matching component of \<open>b\<close>.
\<close>

definition point_ge :: "point5d \<Rightarrow> point5d \<Rightarrow> bool" where
  "point_ge a b \<longleftrightarrow> p_x a \<ge> p_x b \<and> p_y a \<ge> p_y b \<and> p_z a \<ge> p_z b
                   \<and> p_t a \<ge> p_t b \<and> p_c a \<ge> p_c b"

definition point_le :: "point5d \<Rightarrow> point5d \<Rightarrow> bool" where
  "point_le a b \<longleftrightarrow> point_ge b a"

text \<open>A region is the half-open box between \<open>start\<close> and \<open>stop\<close>.\<close>

record interval5d =
  start :: point5d
  stop :: point5d

definition shape :: "interval5d \<Rightarrow> shape5d" where
  "shape r = point_sub (stop r) (start r)"

definition to_slice_5d :: "shape5d \<Rightarrow> interval5d" where
  "to_slice_5d s = \<lparr>start = Point5D_zero, stop = s\<rparr>"

definition translated :: "interval5d \<Rightarrow> point5d \<Rightarrow> interval5d" where
  "translated r offset = \<lparr>start = point_add (start r) offset, stop = point_add (stop r) offset\<rparr>"

text \<open>
  Modelled from the spec: the region operations of the coordinate library (package
  \<open>ndstructs\<close>) are used by the sources below but are not part of them. Section 4.1
  describes \<open>enlarge\<close> as growing the region symmetrically by the margin on every axis
  with no clamping, \<open>clamp\<close> as the intersection with the bounds, and \<open>contains\<close> as
  full containment.
\<close>

definition enlarged :: "interval5d \<Rightarrow> point5d \<Rightarrow> interval5d" where
  "enlarged r radius = \<lparr>start = point_sub (start r) radius, stop = point_add (stop r) radius\<rparr>"

definition point_max :: "point5d \<Rightarrow> point5d \<Rightarrow> point5d" where
  "point_max a b = \<lparr>p_x = max (p_x a) (p_x b), p_y = max (p_y a) (p_y b),
                    p_z = max (p_z a) (p_z b), p_t = max (p_t a) (p_t b),
                    p_c = max (p_c a) (p_c b)\<rparr>"

definition point_min :: "point5d \<Rightarrow> point5d \<Rightarrow> point5d" where
  "point_min a b = \<lparr>p_x = min (p_x a) (p_x b), p_y = min (p_y a) (p_y b),
                    p_z = min (p_z a) (p_z b), p_t = min (p_t a) (p_t b),
                    p_c = min (p_c a) (p_c b)\<rparr>"

definition clamped :: "interval5d \<Rightarrow> interval5d \<Rightarrow> interval5d" where
  "clamped r limits = \<lparr>start = point_max (start r) (start limits),
                       stop = point_min (stop r) (stop limits)\<rparr>"

definition contains :: "interval5d \<Rightarrow> interval5d \<Rightarrow> bool" where
  "contains outer inner \<longleftrightarrow> point_ge (start inner) (start outer) \<and> point_le (stop inner) (stop outer)"

text \<open>A data source exposes the region it covers and its native tile shape.\<close>

record datasource =
  ds_name :: string
  ds_roi :: interval5d
  tile_shape :: shape5d

definition ds_shape :: "datasource \<Rightarrow> shape5d" where
  "ds_shape ds = shape (ds_roi ds)"

text \<open>A \<open>DataRoi\<close> / \<open>DataSourceSlice\<close>: a region together with the source it addresses.\<close>

record data_roi =
  roi_source :: datasource
  roi_interval :: interval5d

section \<open>HTTP requests with a byte range (utility/request.py)\<close>

type_synonym byte = "8 word"

datatype http_method = Get | Put | Post | Delete

text \<open>
  The value of the \<open>Range\<close> header: \<open>bytes=<offset>-\<close>, \<open>bytes=<offset>-<end>\<close>
  or, for a negative offset, \<open>bytes=<offset>\<close>.
\<close>

datatype range_header = BytesFrom int "int option" | BytesSuffix int

record http_call =
  call_method :: http_method
  call_url :: string
  call_data :: "byte list option"
  call_headers :: "(string \<times> string) list"
  call_range :: range_header

record http_response =
  resp_ok :: bool
  resp_status_code :: int
  resp_text :: string
  resp_content :: "byte list"
  resp_headers :: "(string \<times> string) list"

datatype request_error =
  ErrRequestCompletedAsFailure int string string "(string \<times> string) list"
| ErrRequestCrashed string

text \<open>Python's \<open>xs[:n]\<close>: a negative bound counts from the end of the sequence.\<close>

definition py_slice_to :: "'a list \<Rightarrow> int \<Rightarrow> 'a list" where
  "py_slice_to xs n = (if 0 \<le> n then take (nat n) xs else take (nat (int (length xs) + n)) xs)"

definition range_header_value :: "int \<Rightarrow> int option \<Rightarrow> range_header" where
  "range_header_value offset num_bytes =
     (if offset \<ge> 0 then
        BytesFrom offset (case num_bytes of None \<Rightarrow> None
                          | Some n \<Rightarrow> Some (max offset (offset + n - 1)))
      else BytesSuffix offset)"

text \<open>
  \<open>request\<close>: the session is the function \<open>send\<close>, whose \<open>Inl\<close> results are the
  exceptions that \<open>session.request\<close> raises. The result is the error value or the pair
  of content and response headers.
\<close>

definition request ::
  "(http_call \<Rightarrow> string + http_response) \<Rightarrow> http_method \<Rightarrow> string \<Rightarrow> byte list option
     \<Rightarrow> int \<Rightarrow> int option \<Rightarrow> (string \<times> string) list
     \<Rightarrow> request_error + (byte list \<times> (string \<times> string) list)" where
  "request send method url data offset num_bytes headers =
     (case send \<lparr>call_method = method, call_url = url, call_data = data,
                 call_headers = headers, call_range = range_header_value offset num_bytes\<rparr> of
        Inl e \<Rightarrow> Inl (ErrRequestCrashed e)
      | Inr response \<Rightarrow>
          if \<not> resp_ok response then
            Inl (ErrRequestCompletedAsFailure (resp_status_code response)
                   (take 1000 (resp_text response)) url (resp_headers response))
          else
            Inr (case num_bytes of None \<Rightarrow> resp_content response
                 | Some n \<Rightarrow> py_slice_to (resp_content response) n,
                 resp_headers response))"

text \<open>A server that answers every call with the three bytes 1, 2, 3.\<close>

definition three_byte_server :: "http_call \<Rightarrow> string + http_response" where
  "three_byte_server call =
     Inr \<lparr>resp_ok = True, resp_status_code = 200, resp_text = [],
          resp_content = [1, 2, 3], resp_headers = []\<rparr>"

section \<open>Colors and annotations (annotations/annotation.py)\<close>

datatype py_error = AssertionError | AttributeError | ValueError | ZeroDivisionError | IndexError

record color =
  color_r :: byte
  color_g :: byte
  color_b :: byte
  color_a :: byte
  color_name :: string

definition rgba :: "color \<Rightarrow> byte \<times> byte \<times> byte \<times> byte" where
  "rgba col = (color_r col, color_g col, color_b col, color_a col)"

text \<open>
  \<open>q_rgba\<close> is \<open>sum(c * (16 ** (3 - idx)) for idx, c in enumerate(self.rgba))\<close>; the
  components are read as unbounded integers.
\<close>

definition q_rgba :: "color \<Rightarrow> int" where
  "q_rgba col = uint (color_r col) * 16 ^ 3 + uint (color_g col) * 16 ^ 2
                + uint (color_b col) * 16 ^ 1 + uint (color_a col) * 16 ^ 0"

text \<open>\<open>Color.__eq__\<close> between two colors compares the \<open>rgba\<close> tuples; the name plays no part.\<close>

definition Color_eq :: "color \<Rightarrow> color \<Rightarrow> bool" where
  "Color_eq self other \<longleftrightarrow> rgba self = rgba other"

text \<open>
  Python's \<open>hash\<close> is a parameter: how it hashes a byte string, a tuple of hashes and
  an 8-bit scalar.
\<close>

record py_hash =
  hash_bytes :: "byte list \<Rightarrow> int"
  hash_tuple :: "int list \<Rightarrow> int"
  hash_uint8 :: "byte \<Rightarrow> int"

definition Color_hash :: "py_hash \<Rightarrow> color \<Rightarrow> int" where
  "Color_hash H col =
     hash_tuple H [hash_uint8 H (color_r col), hash_uint8 H (color_g col),
                   hash_uint8 H (color_b col), hash_uint8 H (color_a col)]"

definition Color_sort :: "color list \<Rightarrow> color list" where
  "Color_sort colors = sort_key q_rgba colors"

text \<open>
  \<open>create_color_map\<close>:
  \<open>{color: np.uint8(idx + 1) for idx, color in enumerate(cls.sort(set(colors)))}\<close>.
  The iteration order of \<open>set(colors)\<close> depends on the hash values, so the conversion to
  a set is the parameter \<open>py_set\<close>; \<open>is_set_of\<close> says what any such conversion yields:
  one representative per \<open>rgba\<close> value of the input. The dictionary is the list of its
  items in insertion order. \<open>np.uint8(idx + 1)\<close> keeps the low eight bits of an index
  that does not fit, as NumPy 1 does.
\<close>

definition is_set_of :: "color list \<Rightarrow> color list \<Rightarrow> bool" where
  "is_set_of s colors \<longleftrightarrow> distinct (map rgba s) \<and> set s \<subseteq> set colors
                          \<and> rgba ` set s = rgba ` set colors"

definition create_color_map ::
  "(color list \<Rightarrow> color list) \<Rightarrow> color list \<Rightarrow> (color \<times> byte) list" where
  "create_color_map py_set colors =
     map (\<lambda>(idx, col). (col, of_nat (idx + 1))) (enumerate 0 (Color_sort (py_set colors)))"

text \<open>Lookup \<open>color_map[color]\<close>: the item whose key equals the color.\<close>

fun color_map_get :: "(color \<times> byte) list \<Rightarrow> color \<Rightarrow> byte option" where
  "color_map_get [] col = None"
| "color_map_get ((k, v) # m) col = (if Color_eq k col then Some v else color_map_get m col)"

text \<open>One conversion to a set: the first occurrence of every \<open>rgba\<close> value, in input order.\<close>

definition first_occurrences :: "color list \<Rightarrow> color list" where
  "first_occurrences colors =
     foldl (\<lambda>acc col. if rgba col \<in> set (map rgba acc) then acc else acc @ [col]) [] colors"

definition grey :: "nat \<Rightarrow> color" where
  "grey k = \<lparr>color_r = 0, color_g = 0, color_b = 0, color_a = of_nat k, color_name = []\<rparr>"

text \<open>
  A numpy array as handed to a constructor: its dimensions and its values in C order.
\<close>

record ndarray =
  nd_shape :: "nat list"
  nd_values :: "int list"

definition astype_bool :: "ndarray \<Rightarrow> bool list" where
  "astype_bool arr = map (\<lambda>v. v \<noteq> 0) (nd_values arr)"

fun axis_index :: "axis \<Rightarrow> axis list \<Rightarrow> nat option" where
  "axis_index a [] = None"
| "axis_index a (b # bs) = (if a = b then Some 0 else map_option Suc (axis_index a bs))"

definition axis_extent :: "ndarray \<Rightarrow> axis list \<Rightarrow> axis \<Rightarrow> int" where
  "axis_extent arr axiskeys a =
     (case axis_index a axiskeys of None \<Rightarrow> 1 | Some i \<Rightarrow> int (nd_shape arr ! i))"

text \<open>
  Modelled from the spec: the block constructor \<open>Array5D.__init__\<close> (package
  \<open>ndstructs\<close>) is not among the sources. Section 3 describes a block as a region plus a
  dense buffer plus an axis-order label telling which axes are materialized; an axis that
  is not materialized has extent 1, and the region starts at the block's location. An
  axis label that does not match the array's dimensions is refused.
\<close>

definition Array5D_roi :: "ndarray \<Rightarrow> axis list \<Rightarrow> point5d \<Rightarrow> py_error + interval5d" where
  "Array5D_roi arr axiskeys location =
     (if length axiskeys \<noteq> length (nd_shape arr) \<or> \<not> distinct axiskeys then Inl AssertionError
      else Inr (translated
                  (to_slice_5d \<lparr>p_x = axis_extent arr axiskeys X, p_y = axis_extent arr axiskeys Y,
                                p_z = axis_extent arr axiskeys Z, p_t = axis_extent arr axiskeys T,
                                p_c = axis_extent arr axiskeys C\<rparr>)
                  location))"

record annotation =
  ann_roi :: interval5d
  ann_data :: "bool list"
  ann_axiskeys :: "axis list"
  ann_color :: color
  ann_raw_data :: datasource

datatype annotation_error = AnnotationOutOfBounds interval5d datasource | ArrayError py_error

text \<open>
  \<open>Annotation.__init__\<close>: the block is built first (\<open>super().__init__\<close>), then the
  region is checked against the raw data's region, then color and raw data are stored.
\<close>

definition Annotation_init ::
  "ndarray \<Rightarrow> axis list \<Rightarrow> point5d \<Rightarrow> color \<Rightarrow> datasource \<Rightarrow> annotation_error + annotation" where
  "Annotation_init arr axiskeys location col raw_data =
     (case Array5D_roi arr axiskeys location of
        Inl e \<Rightarrow> Inl (ArrayError e)
      | Inr roi \<Rightarrow>
          if \<not> contains (ds_roi raw_data) roi then Inl (AnnotationOutOfBounds roi raw_data)
          else Inr \<lparr>ann_roi = roi, ann_data = astype_bool arr, ann_axiskeys = axiskeys,
                    ann_color = col, ann_raw_data = raw_data\<rparr>)"

text \<open>
  The right operand of \<open>==\<close>: another annotation, or any other object, of which only the
  attributes \<open>color\<close> and \<open>_data\<close> matter (absent when \<open>None\<close>).
\<close>

datatype py_object = PyAnnotation annotation | PyOther "color option" "bool list option"

fun Annotation_eq :: "annotation \<Rightarrow> py_object \<Rightarrow> py_error + bool" where
  "Annotation_eq self (PyAnnotation other) = Inr False"
| "Annotation_eq self (PyOther None dat) = Inl AttributeError"
| "Annotation_eq self (PyOther (Some col) dat) =
     (if \<not> Color_eq (ann_color self) col then Inr False
      else case dat of None \<Rightarrow> Inl AttributeError
           | Some d \<Rightarrow> Inr (ann_data self = d))"

definition tobytes_bool :: "bool list \<Rightarrow> byte list" where
  "tobytes_bool bs = map (\<lambda>b. if b then 1 else 0) bs"

definition Annotation_hash :: "py_hash \<Rightarrow> annotation \<Rightarrow> int" where
  "Annotation_hash H self =
     hash_tuple H [hash_bytes H (tobytes_bool (ann_data self)), Color_hash H (ann_color self)]"

text \<open>A 10 by 10 single-channel source, a 2 by 2 mask and the color red.\<close>

definition small_source :: datasource where
  "small_source =
     \<lparr>ds_name = ''raw'',
      ds_roi = \<lparr>start = Point5D_zero,
               stop = \<lparr>p_x = 10, p_y = 10, p_z = 1, p_t = 1, p_c = 1\<rparr>\<rparr>,
      tile_shape = \<lparr>p_x = 5, p_y = 5, p_z = 1, p_t = 1, p_c = 1\<rparr>\<rparr>"

definition small_mask :: ndarray where
  "small_mask = \<lparr>nd_shape = [2, 2], nd_values = [1, 0, 0, 1]\<rparr>"

definition red :: color where
  "red = \<lparr>color_r = 255, color_g = 0, color_b = 0, color_a = 255, color_name = ''red''\<rparr>"

definition simple_hash :: py_hash where
  "simple_hash = \<lparr>hash_bytes = (\<lambda>bs. int (length bs)), hash_tuple = sum_list,
                  hash_uint8 = uint\<rparr>"

section \<open>Prediction tiles on the wire (server/server.py, ng_predict)\<close>

text \<open>
  A block of predictions: its region and the scalar at every point. \<open>as_uint8\<close> turns
  every scalar into an 8-bit unsigned value; the conversion is the parameter \<open>to_uint8\<close>.
\<close>

record 'v array5d =
  arr_roi :: interval5d
  arr_value :: "point5d \<Rightarrow> 'v"

text \<open>
  \<open>raw("xyzc")\<close> is the 4-dimensional array indexed by the offsets along x, y, z and
  c from the block's start; the time axis, which is not named, must have extent 1.
\<close>

definition raw_xyzc :: "'v array5d \<Rightarrow> py_error + (nat \<Rightarrow> nat \<Rightarrow> nat \<Rightarrow> nat \<Rightarrow> 'v)" where
  "raw_xyzc a =
     (if p_t (shape (arr_roi a)) \<noteq> 1 then Inl AssertionError
      else Inr (\<lambda>i j k l. arr_value a
                  ((start (arr_roi a))\<lparr>p_x := p_x (start (arr_roi a)) + int i,
                                        p_y := p_y (start (arr_roi a)) + int j,
                                        p_z := p_z (start (arr_roi a)) + int k,
                                        p_c := p_c (start (arr_roi a)) + int l\<rparr>)))"

text \<open>
  \<open>tobytes("F")\<close> of a 4-dimensional array of one-byte items: Fortran order, the first
  index varying fastest and the last slowest.
\<close>

definition tobytes_F ::
  "nat \<Rightarrow> nat \<Rightarrow> nat \<Rightarrow> nat \<Rightarrow> (nat \<Rightarrow> nat \<Rightarrow> nat \<Rightarrow> nat \<Rightarrow> byte) \<Rightarrow> byte list" where
  "tobytes_F n1 n2 n3 n4 arr =
     concat (map (\<lambda>l. concat (map (\<lambda>k. concat (map (\<lambda>j. map (\<lambda>i. arr i j k l) [0..<n1])
                                                   [0..<n2]))
                                [0..<n3]))
              [0..<n4])"

text \<open>
  The body of the response of \<open>ng_predict\<close>:
  \<open>predictions.as_uint8().raw("xyzc").tobytes("F")\<close>, with nothing before or after it.
\<close>

definition ng_predict_body :: "('v \<Rightarrow> byte) \<Rightarrow> 'v array5d \<Rightarrow> py_error + byte list" where
  "ng_predict_body to_uint8 predictions =
     (case raw_xyzc predictions of
        Inl e \<Rightarrow> Inl e
      | Inr arr \<Rightarrow>
          Inr (tobytes_F (nat (p_x (shape (arr_roi predictions))))
                         (nat (p_y (shape (arr_roi predictions))))
                         (nat (p_z (shape (arr_roi predictions))))
                         (nat (p_c (shape (arr_roi predictions))))
                         (\<lambda>i j k l. to_uint8 (arr i j k l))))"

text \<open>A 2 by 2 by 1 tile with 2 channels whose scalar at a point is \<open>x + 10 y + 100 c\<close>.\<close>

definition small_tile :: "int array5d" where
  "small_tile =
     \<lparr>arr_roi = \<lparr>start = \<lparr>p_x = 4, p_y = 6, p_z = 0, p_t = 0, p_c = 0\<rparr>,
                 stop = \<lparr>p_x = 6, p_y = 8, p_z = 1, p_t = 1, p_c = 2\<rparr>\<rparr>,
      arr_value = (\<lambda>p. p_x p + 10 * p_y p + 100 * p_c p)\<rparr>"

section \<open>Process-pool orchestration (benchmarks and server/server.py)\<close>

text \<open>
  The worker (\<open>do_predict\<close> in the benchmark, \<open>do_worker_predict\<close> in the server):
  it receives the pair of classifier and batch, predicts the tiles of the batch one after
  the other and returns the list of results.
\<close>

definition do_predict :: "('c \<Rightarrow> 't \<Rightarrow> 'p) \<Rightarrow> 'c \<times> 't list \<Rightarrow> 'p list" where
  "do_predict predict slice_batch =
     foldl (\<lambda>out datasource_slc. out @ [predict (fst slice_batch) datasource_slc]) []
       (snd slice_batch)"

text \<open>
  \<open>math.ceil(len(all_slices) / args.num_workers)\<close> for a positive number of workers,
  and \<open>range(0, stop, step)\<close>, which raises \<open>ValueError\<close> for a step of 0.
\<close>

definition ceil_div :: "nat \<Rightarrow> nat \<Rightarrow> nat" where
  "ceil_div n w = (n + w - 1) div w"

definition py_range_step :: "nat \<Rightarrow> nat \<Rightarrow> py_error + nat list" where
  "py_range_step bound step =
     (if step = 0 then Inl ValueError
      else Inr (map (\<lambda>k. k * step) [0..<ceil_div bound step]))"

text \<open>
  The benchmark's process-pool branch. \<open>ProcessPoolExecutor(max_workers=n)\<close> refuses
  \<open>n \<le> 0\<close> with \<open>ValueError\<close>. The batches are
  \<open>[(classifier, all_slices[start : start + batch_size]) for start in range(0, len(all_slices), batch_size)]\<close>.
\<close>

definition process_pool_batches :: "'c \<Rightarrow> 't list \<Rightarrow> int \<Rightarrow> py_error + ('c \<times> 't list) list" where
  "process_pool_batches classifier all_slices num_workers =
     (if num_workers \<le> 0 then Inl ValueError
      else
        let batch_size = ceil_div (length all_slices) (nat num_workers) in
        case py_range_step (length all_slices) batch_size of
          Inl e \<Rightarrow> Inl e
        | Inr starts \<Rightarrow>
            Inr (map (\<lambda>start. (classifier, take batch_size (drop start all_slices))) starts))"

text \<open>
  The coordinator: \<open>executor.map\<close> yields the result lists in the order of the batches,
  and every result is merged with \<open>predictions.set\<close>. The value is the sequence of merged
  results, in merge order.
\<close>

definition merge_batches :: "'p list list \<Rightarrow> 'p list" where
  "merge_batches result_batches =
     foldl (\<lambda>merged result_batch. foldl (\<lambda>m result. m @ [result]) merged result_batch) []
       result_batches"

definition process_pool_run ::
  "('c \<Rightarrow> 't \<Rightarrow> 'p) \<Rightarrow> 'c \<Rightarrow> 't list \<Rightarrow> int \<Rightarrow> py_error + 'p list" where
  "process_pool_run predict classifier all_slices num_workers =
     (case process_pool_batches classifier all_slices num_workers of
        Inl e \<Rightarrow> Inl e
      | Inr batches \<Rightarrow> Inr (merge_batches (map (do_predict predict) batches)))"

text \<open>
  The server's \<open>do_predictions\<close> groups the tiles in a \<open>defaultdict(list)\<close> under the
  key \<open>hash(slc) % args.num_workers\<close>; a dictionary keeps its keys in the order of their
  first insertion. The batch of key \<open>idx\<close> goes to \<open>executors[idx]\<close>, a list of
  \<open>num_workers\<close> executors. The hash of a tile is the parameter \<open>hash\<close>.
\<close>

fun dict_append :: "(int \<times> 't list) list \<Rightarrow> int \<Rightarrow> 't \<Rightarrow> (int \<times> 't list) list" where
  "dict_append [] k v = [(k, [v])]"
| "dict_append ((k', vs) # d) k v =
     (if k' = k then (k', vs @ [v]) # d else (k', vs) # dict_append d k v)"

definition group_tiles :: "('t \<Rightarrow> int) \<Rightarrow> 't list \<Rightarrow> (int \<times> 't list) list" where
  "group_tiles batch_idx tiles =
     foldl (\<lambda>slc_batches slc. dict_append slc_batches (batch_idx slc) slc) [] tiles"

definition do_predictions_batches ::
  "('t \<Rightarrow> int) \<Rightarrow> 't list \<Rightarrow> int \<Rightarrow> py_error + (int \<times> 't list) list" where
  "do_predictions_batches hash tiles num_workers =
     (if tiles = [] then Inr []
      else if num_workers = 0 then Inl ZeroDivisionError
      else if num_workers < 0 then Inl IndexError
      else Inr (group_tiles (\<lambda>slc. hash slc mod num_workers) tiles))"

definition do_predictions ::
  "('t \<Rightarrow> int) \<Rightarrow> ('c \<Rightarrow> 't \<Rightarrow> 'p) \<Rightarrow> 'c \<Rightarrow> 't list \<Rightarrow> int \<Rightarrow> py_error + 'p list" where
  "do_predictions hash predict classifier tiles num_workers =
     (case do_predictions_batches hash tiles num_workers of
        Inl e \<Rightarrow> Inl e
      | Inr slc_batches \<Rightarrow>
          Inr (merge_batches
                 (map (\<lambda>(idx, batch). do_predict predict (classifier, batch)) slc_batches)))"

section \<open>Tiling of regions\<close>

text \<open>
  Modelled from the spec: \<open>split\<close> of the coordinate library (package \<open>ndstructs\<close>) is
  not among the sources. Section 4.1 describes it as a partition of the region into tiles
  of the given shape, the last tile on each axis being clamped to the region's stop. The
  tiles are listed with t as the outermost axis, then x, y, z, and c as the innermost;
  no theorem below depends on that order.
\<close>

definition axis_tiles :: "int \<Rightarrow> int \<Rightarrow> int \<Rightarrow> (int \<times> int) list" where
  "axis_tiles lo hi step =
     (if step \<le> 0 then []
      else map (\<lambda>k. (lo + int k * step, min (lo + (int k + 1) * step) hi))
             [0..<nat ((hi - lo + step - 1) div step)])"

definition split :: "interval5d \<Rightarrow> shape5d \<Rightarrow> interval5d list" where
  "split r s =
     concat (map (\<lambda>it. concat (map (\<lambda>ix. concat (map (\<lambda>iy. concat (map (\<lambda>iz. map (\<lambda>ic.
        \<lparr>start = \<lparr>p_x = fst ix, p_y = fst iy, p_z = fst iz, p_t = fst it, p_c = fst ic\<rparr>,
         stop = \<lparr>p_x = snd ix, p_y = snd iy, p_z = snd iz, p_t = snd it, p_c = snd ic\<rparr>\<rparr>)
        (axis_tiles (p_c (start r)) (p_c (stop r)) (p_c s)))
        (axis_tiles (p_z (start r)) (p_z (stop r)) (p_z s))))
        (axis_tiles (p_y (start r)) (p_y (stop r)) (p_y s))))
        (axis_tiles (p_x (start r)) (p_x (stop r)) (p_x s))))
        (axis_tiles (p_t (start r)) (p_t (stop r)) (p_t s)))"

definition split_roi :: "data_roi \<Rightarrow> shape5d \<Rightarrow> data_roi list" where
  "split_roi r s = map (\<lambda>iv. r\<lparr>roi_interval := iv\<rparr>) (split (roi_interval r) s)"

definition roi_shape :: "data_roi \<Rightarrow> shape5d" where
  "roi_shape r = shape (roi_interval r)"

definition inside :: "interval5d \<Rightarrow> point5d \<Rightarrow> bool" where
  "inside r p \<longleftrightarrow> p_x (start r) \<le> p_x p \<and> p_x p < p_x (stop r)
                \<and> p_y (start r) \<le> p_y p \<and> p_y p < p_y (stop r)
                \<and> p_z (start r) \<le> p_z p \<and> p_z p < p_z (stop r)
                \<and> p_t (start r) \<le> p_t p \<and> p_t p < p_t (stop r)
                \<and> p_c (start r) \<le> p_c p \<and> p_c p < p_c (stop r)"

section \<open>Feature extractors (features/feature_extractor.py)\<close>

text \<open>
  A \<open>ChannelwiseFilter\<close> carries \<open>axis_2d\<close> and \<open>num_input_channels\<close>; its subclass
  supplies the kernel shape, the channel multiplier (1 unless overridden) and the kernel
  \<open>_compute_slice\<close>, which is identified by a number. A \<open>FeatureExtractorCollection\<close>
  holds its children in order.
\<close>

datatype feature_extractor =
  ChannelwiseFilter "axis option" int shape5d int nat
| FeatureExtractorCollection "feature_extractor list"

text \<open>
  The kernel shape of a collection is computed in \<open>__init__\<close>, per axis the maximum over
  the children. The constructor asserts that there is a child.
\<close>

fun kernel_shape :: "feature_extractor \<Rightarrow> shape5d" where
  "kernel_shape (ChannelwiseFilter axis_2d num_input_channels ks multiplier kid) = ks"
| "kernel_shape (FeatureExtractorCollection extractors) =
     (case map kernel_shape extractors of [] \<Rightarrow> Point5D_zero | s # ss \<Rightarrow> foldl point_max s ss)"

definition FeatureExtractorCollection_init :: "feature_extractor list \<Rightarrow> py_error + feature_extractor" where
  "FeatureExtractorCollection_init extractors =
     (if \<not> length extractors > 0 then Inl AssertionError
      else Inr (FeatureExtractorCollection extractors))"

fun channel_multiplier :: "feature_extractor \<Rightarrow> int" where
  "channel_multiplier (ChannelwiseFilter axis_2d num_input_channels ks multiplier kid) = multiplier"
| "channel_multiplier (FeatureExtractorCollection extractors) =
     sum_list (map channel_multiplier extractors)"

fun get_expected_shape :: "feature_extractor \<Rightarrow> shape5d \<Rightarrow> shape5d" where
  "get_expected_shape (ChannelwiseFilter axis_2d num_input_channels ks multiplier kid) input_shape =
     updated input_shape C (p_c input_shape * multiplier)"
| "get_expected_shape (FeatureExtractorCollection extractors) input_shape =
     updated input_shape C
       (sum_list (map (\<lambda>fx. p_c (get_expected_shape fx input_shape)) extractors))"

text \<open>\<open>halo\<close> is \<open>self.kernel_shape // 2\<close>, Python's floor division on every axis.\<close>

definition halo :: "feature_extractor \<Rightarrow> point5d" where
  "halo fx = \<lparr>p_x = p_x (kernel_shape fx) div 2, p_y = p_y (kernel_shape fx) div 2,
              p_z = p_z (kernel_shape fx) div 2, p_t = p_t (kernel_shape fx) div 2,
              p_c = p_c (kernel_shape fx) div 2\<rparr>"

text \<open>
  \<open>is_applicable_to\<close>: the base class compares the shapes; \<open>ChannelwiseFilter\<close> also
  wants the source's channel count to be \<open>num_input_channels\<close>.
\<close>

fun is_applicable_to :: "feature_extractor \<Rightarrow> datasource \<Rightarrow> bool" where
  "is_applicable_to (ChannelwiseFilter axis_2d num_input_channels ks multiplier kid) ds \<longleftrightarrow>
     point_ge (ds_shape ds) ks \<and> p_c (ds_shape ds) = num_input_channels"
| "is_applicable_to (FeatureExtractorCollection extractors) ds \<longleftrightarrow>
     point_ge (ds_shape ds) (kernel_shape (FeatureExtractorCollection extractors))"

datatype feature_error = FeatureDataMismatchException feature_extractor datasource

definition ensure_applicable :: "feature_extractor \<Rightarrow> datasource \<Rightarrow> feature_error + unit" where
  "ensure_applicable fx ds =
     (if \<not> is_applicable_to fx ds then Inl (FeatureDataMismatchException fx ds) else Inr ())"

section \<open>Fast filters (features/channelwise_fastfilters.py)\<close>

text \<open>
  The preprocessor of a filter is an operator from regions to blocks; \<open>OpRetriever\<close> is
  the default. The scalar parameters are Python floats, read here as real numbers.
\<close>

datatype preprocessor = OpRetriever | OtherOperator nat

datatype filter_kind =
  StructureTensorEigenvalues real real real
| GaussianGradientMagnitude real real
| GaussianSmoothing real real
| DifferenceOfGaussians real real real
| HessianOfGaussianEigenvalues real real
| LaplacianOfGaussian real real

record fast_filter =
  ff_preprocessor :: preprocessor
  ff_axis_2d :: "axis option"
  ff_presmooth_sigma :: real
  ff_kind :: filter_kind

text \<open>
  \<open>SigmaWindowFilter.__init__\<close> passes only \<open>axis_2d\<close> and \<open>presmooth_sigma\<close> to the base
  class, so a filter of that family keeps the default preprocessor.
\<close>

definition GaussianSmoothing_init ::
  "preprocessor \<Rightarrow> real \<Rightarrow> real \<Rightarrow> axis option \<Rightarrow> real \<Rightarrow> fast_filter" where
  "GaussianSmoothing_init preprocessor sigma window_size axis_2d presmooth_sigma =
     \<lparr>ff_preprocessor = OpRetriever, ff_axis_2d = axis_2d,
      ff_presmooth_sigma = presmooth_sigma, ff_kind = GaussianSmoothing sigma window_size\<rparr>"

text \<open>
  The \<open>halo\<close> property of \<open>ChannelwiseFastFilter\<close>: 30 on x, y and z, 0 on c (and on t,
  which is not given), and 0 on the axis of \<open>axis_2d\<close> when there is one.
\<close>

definition fast_halo :: "fast_filter \<Rightarrow> point5d" where
  "fast_halo f =
     (case ff_axis_2d f of
        None \<Rightarrow> \<lparr>p_x = 30, p_y = 30, p_z = 30, p_t = 0, p_c = 0\<rparr>
      | Some a \<Rightarrow> updated \<lparr>p_x = 30, p_y = 30, p_z = 30, p_t = 0, p_c = 0\<rparr> a 0)"

definition fast_is_applicable_to :: "fast_filter \<Rightarrow> datasource \<Rightarrow> bool" where
  "fast_is_applicable_to f ds \<longleftrightarrow> point_ge (ds_shape ds) (point_scale (fast_halo f) 2)"

text \<open>
  \<open>ChannelwiseFastFilter.compute\<close>, up to the call that fetches the kernel's input: the
  region is split into steps of one channel and one time point (and one slice along
  \<open>axis_2d\<close>), each step is enlarged by the halo, and the enlarged region is handed to a
  Gaussian smoothing filter when \<open>presmooth_sigma > 0\<close> and to the preprocessor otherwise.
  The plan of a step records that call, the channel offset of the step and the region
  that is cut out of the kernel's output.
\<close>

datatype source_call =
  PreprocessorCompute preprocessor data_roi
| FilterCompute fast_filter data_roi

record slice_plan =
  sp_source :: source_call
  sp_channel_offset :: int
  sp_cut :: data_roi

definition roi_step_of :: "axis option \<Rightarrow> shape5d \<Rightarrow> shape5d" where
  "roi_step_of axis_2d s =
     (case axis_2d of None \<Rightarrow> updated (updated s C 1) T 1
      | Some a \<Rightarrow> updated (updated (updated s C 1) T 1) a 1)"

definition roi_enlarged :: "data_roi \<Rightarrow> point5d \<Rightarrow> data_roi" where
  "roi_enlarged r radius = r\<lparr>roi_interval := enlarged (roi_interval r) radius\<rparr>"

definition fast_compute_plan :: "fast_filter \<Rightarrow> data_roi \<Rightarrow> slice_plan list" where
  "fast_compute_plan f roi =
     map (\<lambda>roi_slice.
            let haloed_roi = roi_enlarged roi_slice (fast_halo f);
                channel_offset = p_c (start (roi_interval roi_slice)) - p_c (start (roi_interval roi))
            in \<lparr>sp_source =
                   (if ff_presmooth_sigma f > 0
                    then FilterCompute
                           (GaussianSmoothing_init (ff_preprocessor f) (ff_presmooth_sigma f) 3.5
                              (ff_axis_2d f) 0)
                           haloed_roi
                    else PreprocessorCompute (ff_preprocessor f) haloed_roi),
                 sp_channel_offset = channel_offset,
                 sp_cut = roi_slice\<rparr>)
         (split_roi roi (roi_step_of (ff_axis_2d f) (roi_shape roi)))"

definition source_call_roi :: "source_call \<Rightarrow> data_roi" where
  "source_call_roi call = (case call of PreprocessorCompute p r \<Rightarrow> r | FilterCompute g r \<Rightarrow> r)"

text \<open>A 100 by 100 by 100 single-channel source and two filters on it.\<close>

definition cube_source :: datasource where
  "cube_source =
     \<lparr>ds_name = ''cube'',
      ds_roi = \<lparr>start = Point5D_zero,
               stop = \<lparr>p_x = 100, p_y = 100, p_z = 100, p_t = 1, p_c = 1\<rparr>\<rparr>,
      tile_shape = \<lparr>p_x = 50, p_y = 50, p_z = 50, p_t = 1, p_c = 1\<rparr>\<rparr>"

definition corner_roi :: data_roi where
  "corner_roi =
     \<lparr>roi_source = cube_source,
      roi_interval = \<lparr>start = Point5D_zero,
                     stop = \<lparr>p_x = 10, p_y = 10, p_z = 10, p_t = 1, p_c = 1\<rparr>\<rparr>\<rparr>"

definition plain_filter :: fast_filter where
  "plain_filter = \<lparr>ff_preprocessor = OpRetriever, ff_axis_2d = None, ff_presmooth_sigma = 0,
                   ff_kind = LaplacianOfGaussian 0.7 0\<rparr>"

definition presmoothed_filter :: fast_filter where
  "presmoothed_filter = \<lparr>ff_preprocessor = OpRetriever, ff_axis_2d = None, ff_presmooth_sigma = 1,
                         ff_kind = LaplacianOfGaussian 1 0\<rparr>"

text \<open>A filter whose kernel is 7 by 7 and a 5 by 5 source.\<close>

definition seven_by_seven :: feature_extractor where
  "seven_by_seven = ChannelwiseFilter None 1 \<lparr>p_x = 7, p_y = 7, p_z = 1, p_t = 1, p_c = 1\<rparr> 1 0"

definition five_by_five :: datasource where
  "five_by_five =
     \<lparr>ds_name = ''five'',
      ds_roi = \<lparr>start = Point5D_zero, stop = \<lparr>p_x = 5, p_y = 5, p_z = 1, p_t = 1, p_c = 1\<rparr>\<rparr>,
      tile_shape = \<lparr>p_x = 5, p_y = 5, p_z = 1, p_t = 1, p_c = 1\<rparr>\<rparr>"

section \<open>Computing features into a block (features/feature_extractor.py)\<close>

text \<open>
  The memory behind a block of feature data is a buffer addressed by absolute
  coordinates; a block is a region of it, and \<open>out.cut(out_roi)\<close> is the view of the same
  buffer at \<open>out_roi\<close>. The kernel \<open>_compute_slice\<close> of a channelwise filter is abstract
  in the source: \<open>K kid raw_data q\<close> is the scalar that kernel \<open>kid\<close> writes at offset
  \<open>q\<close> of its output block when it reads the slice \<open>raw_data\<close>.
\<close>

type_synonym 'v buffer = "point5d \<Rightarrow> 'v"

definition compute_slice ::
  "(nat \<Rightarrow> data_roi \<Rightarrow> point5d \<Rightarrow> 'v) \<Rightarrow> nat \<Rightarrow> data_roi \<Rightarrow> interval5d \<Rightarrow> 'v buffer \<Rightarrow> 'v buffer" where
  "compute_slice K kid raw_data out buf =
     (\<lambda>p. if inside out p then K kid raw_data (point_sub p (start out)) else buf p)"

text \<open>
  \<open>ChannelwiseFilter.compute_into\<close> pairs the steps of the input with the steps of the
  output and runs the kernel on every pair; \<open>FeatureExtractorCollection.compute_into\<close>
  asserts the shape of \<open>out\<close> and runs its children in order, each on the view at
  \<open>out_roi\<close>, advancing \<open>offset\<close> by the channel count of that view.
\<close>

fun compute_into ::
    "(nat \<Rightarrow> data_roi \<Rightarrow> point5d \<Rightarrow> 'v) \<Rightarrow> feature_extractor \<Rightarrow> data_roi \<Rightarrow> interval5d
       \<Rightarrow> 'v buffer \<Rightarrow> py_error + 'v buffer"
  and compute_children ::
    "(nat \<Rightarrow> data_roi \<Rightarrow> point5d \<Rightarrow> 'v) \<Rightarrow> feature_extractor list \<Rightarrow> data_roi \<Rightarrow> point5d
       \<Rightarrow> 'v buffer \<Rightarrow> py_error + 'v buffer" where
  "compute_into K (ChannelwiseFilter axis_2d num_input_channels ks multiplier kid) input_roi out buf =
     Inr (foldl (\<lambda>b (slc_in, slc_out). compute_slice K kid slc_in slc_out b) buf
            (zip (split_roi input_roi (roi_step_of axis_2d (roi_shape input_roi)))
                 (split out (updated (roi_step_of axis_2d (roi_shape input_roi)) C multiplier))))"
| "compute_into K (FeatureExtractorCollection extractors) input_roi out buf =
     (if shape out \<noteq> get_expected_shape (FeatureExtractorCollection extractors) (roi_shape input_roi)
      then Inl AssertionError
      else compute_children K extractors input_roi (start out) buf)"
| "compute_children K [] input_roi offset buf = Inr buf"
| "compute_children K (fx # extractors) input_roi offset buf =
     (let out_roi = translated (to_slice_5d (get_expected_shape fx (roi_shape input_roi))) offset
      in case compute_into K fx input_roi out_roi buf of
           Inl e \<Rightarrow> Inl e
         | Inr buf' \<Rightarrow>
             compute_children K extractors input_roi
               (point_add offset (Point5D_zero\<lparr>p_c := p_c (shape out_roi)\<rparr>)) buf')"

text \<open>
  \<open>FeatureExtractor.compute\<close> before caching: the output block is allocated with the
  expected shape at the start of the input region and filled by \<open>compute_into\<close>. The
  content of freshly allocated memory is the parameter \<open>fresh\<close>.
\<close>

definition compute ::
  "(nat \<Rightarrow> data_roi \<Rightarrow> point5d \<Rightarrow> 'v) \<Rightarrow> 'v buffer \<Rightarrow> feature_extractor \<Rightarrow> data_roi
     \<Rightarrow> py_error + 'v array5d" where
  "compute K fresh fx input_roi =
     (let out_roi = translated (to_slice_5d (get_expected_shape fx (roi_shape input_roi)))
                      (start (roi_interval input_roi))
      in case compute_into K fx input_roi out_roi fresh of
           Inl e \<Rightarrow> Inl e
         | Inr buf \<Rightarrow> Inr \<lparr>arr_roi = out_roi, arr_value = buf\<rparr>)"

text \<open>
  The composite extractor in the words of the spec: child \<open>k\<close> writes into the channel
  sub-range that starts where the sub-ranges of the children before it end, sized by its
  own expected shape, and the children run in order.
\<close>

definition channel_offset :: "feature_extractor list \<Rightarrow> shape5d \<Rightarrow> nat \<Rightarrow> int" where
  "channel_offset extractors s k =
     sum_list (map (\<lambda>fx. p_c (get_expected_shape fx s)) (take k extractors))"

definition child_out_roi :: "feature_extractor list \<Rightarrow> shape5d \<Rightarrow> point5d \<Rightarrow> nat \<Rightarrow> interval5d" where
  "child_out_roi extractors s origin k =
     translated (to_slice_5d (get_expected_shape (extractors ! k) s))
       (origin\<lparr>p_c := p_c origin + channel_offset extractors s k\<rparr>)"

fun compute_each ::
  "(nat \<Rightarrow> data_roi \<Rightarrow> point5d \<Rightarrow> 'v) \<Rightarrow> data_roi \<Rightarrow> (feature_extractor \<times> interval5d) list
     \<Rightarrow> 'v buffer \<Rightarrow> py_error + 'v buffer" where
  "compute_each K input_roi [] buf = Inr buf"
| "compute_each K input_roi ((fx, out_roi) # rest) buf =
     (case compute_into K fx input_roi out_roi buf of
        Inl e \<Rightarrow> Inl e
      | Inr buf' \<Rightarrow> compute_each K input_roi rest buf')"

text \<open>
  Two filters with channel multipliers 1 and 3, a kernel that writes
  \<open>1000 kid + 100 c + 10 y + x\<close> at offset \<open>(x, y, c)\<close>, and a 2 by 2 single-channel
  region of the small source.
\<close>

definition filter_one :: feature_extractor where
  "filter_one = ChannelwiseFilter None 1 \<lparr>p_x = 1, p_y = 1, p_z = 1, p_t = 1, p_c = 1\<rparr> 1 1"

definition filter_three :: feature_extractor where
  "filter_three = ChannelwiseFilter None 1 \<lparr>p_x = 1, p_y = 1, p_z = 1, p_t = 1, p_c = 1\<rparr> 3 2"

definition index_kernel :: "nat \<Rightarrow> data_roi \<Rightarrow> point5d \<Rightarrow> int" where
  "index_kernel kid raw_data q = 1000 * int kid + 100 * p_c q + 10 * p_y q + p_x q"

definition small_roi :: data_roi where
  "small_roi =
     \<lparr>roi_source = small_source,
      roi_interval = \<lparr>start = \<lparr>p_x = 2, p_y = 4, p_z = 0, p_t = 0, p_c = 0\<rparr>,
                     stop = \<lparr>p_x = 4, p_y = 6, p_z = 1, p_t = 1, p_c = 1\<rparr>\<rparr>\<rparr>"

section \<open>The operator cache (\<open>functools.lru_cache()\<close>)\<close>










section \<open>Theorems\<close>

subsection \<open>Truncation of the response body\<close>

text \<open>
  C10, as stated: every successful call with \<open>num_bytes = n\<close> returns at most \<open>n\<close>
  bytes. This fails for a negative \<open>n\<close>: the slice \<open>content[:-1]\<close> drops the last byte
  only, so the two bytes returned are more than \<open>-1\<close>.
\<close>

theorem request_num_bytes_counterexample:
  "request three_byte_server Get ''u'' None 0 (Some (- 1)) [] = Inr ([1, 2], [])
   \<and> \<not> int (length [1, 2 :: byte]) \<le> - 1"
  by (simp add: request_def three_byte_server_def py_slice_to_def)

text \<open>
  C10, amended: for \<open>num_bytes = n\<close> with \<open>n\<close> not negative, a successful call returns
  the first \<open>n\<close> bytes of the body the server sent (the whole body when it is shorter),
  hence at most \<open>n\<close> bytes.
\<close>

theorem request_num_bytes_truncates:
  assumes "0 \<le> n"
    and "request send method url data offset (Some n) headers = Inr (content, hs)"
  shows "int (length content) \<le> n
         \<and> (\<exists>response. send \<lparr>call_method = method, call_url = url, call_data = data,
                               call_headers = headers,
                               call_range = range_header_value offset (Some n)\<rparr> = Inr response
               \<and> resp_ok response
               \<and> content = take (nat n) (resp_content response)
               \<and> hs = resp_headers response)"
  using assms
  by (auto simp: request_def py_slice_to_def split: sum.splits if_splits)

theorem request_num_bytes_truncates_witness:
  "(0::int) \<le> 2
   \<and> request three_byte_server Get ''u'' None 0 (Some 2) [] = Inr ([1, 2], [])
   \<and> int (length [1, 2 :: byte]) \<le> 2"
proof -
  have h0: "(0::int) \<le> 2" by simp
  have h1: "request three_byte_server Get ''u'' None 0 (Some 2) [] = Inr ([1, 2], [])"
    by (simp add: request_def three_byte_server_def py_slice_to_def)
  from request_num_bytes_truncates [OF h0 h1] h0 h1 show ?thesis by simp
qed

subsection \<open>Annotations stay inside their raw data\<close>

text \<open>
  C6: constructing an annotation whose region is not contained in the raw data's region
  fails with \<open>AnnotationOutOfBounds\<close>, whatever the mask holds, so every annotation
  that was constructed has its region inside the region of its raw data.
\<close>

theorem Annotation_init_in_bounds:
  "(Array5D_roi arr axiskeys location = Inr roi \<and> \<not> contains (ds_roi raw_data) roi
      \<longrightarrow> Annotation_init arr axiskeys location col raw_data
            = Inl (AnnotationOutOfBounds roi raw_data))
   \<and> (Annotation_init arr axiskeys location col raw_data = Inr a
      \<longrightarrow> contains (ds_roi (ann_raw_data a)) (ann_roi a)
          \<and> Array5D_roi arr axiskeys location = Inr (ann_roi a)
          \<and> ann_raw_data a = raw_data)"
  by (auto simp: Annotation_init_def split: sum.splits if_splits)

theorem Annotation_init_in_bounds_witness:
  "Annotation_init small_mask [Y, X] (Point5D_zero\<lparr>p_x := 9\<rparr>) red small_source
     = Inl (AnnotationOutOfBounds
              \<lparr>start = \<lparr>p_x = 9, p_y = 0, p_z = 0, p_t = 0, p_c = 0\<rparr>,
               stop = \<lparr>p_x = 11, p_y = 2, p_z = 1, p_t = 1, p_c = 1\<rparr>\<rparr> small_source)
   \<and> (\<exists>a. Annotation_init small_mask [Y, X] (Point5D_zero\<lparr>p_x := 8\<rparr>) red small_source = Inr a
          \<and> contains (ds_roi (ann_raw_data a)) (ann_roi a))"
proof -
  let ?out = "\<lparr>start = \<lparr>p_x = 9, p_y = 0, p_z = 0, p_t = 0, p_c = 0\<rparr>,
               stop = \<lparr>p_x = 11, p_y = 2, p_z = 1, p_t = 1, p_c = 1\<rparr>\<rparr>"
  have r1: "Array5D_roi small_mask [Y, X] (Point5D_zero\<lparr>p_x := 9\<rparr>) = Inr ?out"
    by (simp add: Array5D_roi_def small_mask_def axis_extent_def translated_def to_slice_5d_def
        point_add_def Point5D_zero_def)
  have n1: "\<not> contains (ds_roi small_source) ?out"
    by (simp add: contains_def small_source_def point_ge_def point_le_def Point5D_zero_def)
  have out: "Annotation_init small_mask [Y, X] (Point5D_zero\<lparr>p_x := 9\<rparr>) red small_source
               = Inl (AnnotationOutOfBounds ?out small_source)"
    using Annotation_init_in_bounds
      [of small_mask "[Y, X]" "Point5D_zero\<lparr>p_x := 9\<rparr>" ?out small_source red] r1 n1
    by blast
  obtain a where a: "Annotation_init small_mask [Y, X] (Point5D_zero\<lparr>p_x := 8\<rparr>) red small_source
                       = Inr a"
    by (simp add: Annotation_init_def Array5D_roi_def small_mask_def axis_extent_def
        translated_def to_slice_5d_def point_add_def Point5D_zero_def contains_def
        small_source_def point_ge_def point_le_def)
  have "contains (ds_roi (ann_raw_data a)) (ann_roi a)"
    using Annotation_init_in_bounds
      [of small_mask "[Y, X]" "Point5D_zero\<lparr>p_x := 8\<rparr>" _ small_source red a] a
    by blast
  with out a show ?thesis by blast
qed

subsection \<open>Equality and hash of annotations\<close>

text \<open>
  C8: \<open>Annotation.__eq__\<close> answers \<open>False\<close> whenever the other operand is an
  annotation, also for an annotation compared with itself, while \<open>__hash__\<close> is a value
  hash: annotations with the same mask and the same color components hash alike.
\<close>

theorem Annotation_eq_never_reflexive:
  "Annotation_eq a (PyAnnotation b) = Inr False
   \<and> Annotation_eq a (PyAnnotation a) = Inr False
   \<and> (ann_data a = ann_data b \<and> rgba (ann_color a) = rgba (ann_color b)
        \<longrightarrow> Annotation_hash H a = Annotation_hash H b)"
  by (simp add: Annotation_hash_def Color_hash_def rgba_def)

theorem Annotation_eq_never_reflexive_witness:
  "\<exists>a. Annotation_init small_mask [Y, X] Point5D_zero red small_source = Inr a
        \<and> Annotation_eq a (PyAnnotation a) = Inr False
        \<and> Annotation_hash simple_hash a = Annotation_hash simple_hash a
        \<and> Annotation_hash simple_hash a = 514"
proof -
  obtain a where a: "Annotation_init small_mask [Y, X] Point5D_zero red small_source = Inr a"
    and d: "ann_data a = [True, False, False, True]" and c: "ann_color a = red"
    by (simp add: Annotation_init_def Array5D_roi_def small_mask_def axis_extent_def
        translated_def to_slice_5d_def point_add_def Point5D_zero_def contains_def
        small_source_def point_ge_def point_le_def astype_bool_def)
  have h: "Annotation_hash simple_hash a = 514"
    by (simp add: Annotation_hash_def Color_hash_def simple_hash_def d c red_def
        tobytes_bool_def)
  from Annotation_eq_never_reflexive [of a a simple_hash] a h show ?thesis by auto
qed

subsection \<open>Label indices of the color map\<close>

lemma create_color_map_length: "length (create_color_map ps cs) = length (ps cs)"
  by (simp add: create_color_map_def Color_sort_def)

lemma create_color_map_nth: "i < length (ps cs) \<Longrightarrow>
   create_color_map ps cs ! i = (Color_sort (ps cs) ! i, of_nat (i + 1))"
  by (simp add: create_color_map_def Color_sort_def nth_enumerate_eq)

lemma create_color_map_keys: "map fst (create_color_map ps cs) = Color_sort (ps cs)"
  by (rule nth_equalityI)
    (simp_all add: create_color_map_length create_color_map_nth Color_sort_def)

lemma create_color_map_labels:
  "map snd (create_color_map ps cs) = map (\<lambda>i. of_nat (i + 1)) [0..<length (ps cs)]"
  by (rule nth_equalityI) (simp_all add: create_color_map_length create_color_map_nth)

lemma unat_label: "i < 255 \<Longrightarrow> unat (of_nat (i + 1) :: byte) = i + 1"
  by (rule of_nat_inverse) simp_all

lemma label_nonzero: "i < 255 \<Longrightarrow> (of_nat (i + 1) :: byte) \<noteq> 0"
  using unat_label [of i] by (metis Suc_eq_plus1 nat.simps(3) unat_0)

lemma label_inj:
  "i < 255 \<Longrightarrow> j < 255 \<Longrightarrow> (of_nat (i + 1) :: byte) = of_nat (j + 1) \<Longrightarrow> i = j"
  using unat_label [of i] unat_label [of j] by simp

lemma color_map_get_distinct:
  "distinct (map (rgba \<circ> fst) m) \<Longrightarrow> (k, v) \<in> set m \<Longrightarrow> Color_eq k col
     \<Longrightarrow> color_map_get m col = Some v"
  by (induction m) (auto simp: Color_eq_def rev_image_eqI)

lemma distinct_snd_unique:
  "distinct (map snd m) \<Longrightarrow> (a, l) \<in> set m \<Longrightarrow> (b, l) \<in> set m \<Longrightarrow> a = b"
  by (induction m) (auto simp: rev_image_eqI)

lemma color_map_get_Some:
  "color_map_get m col = Some v \<Longrightarrow> \<exists>k. (k, v) \<in> set m \<and> Color_eq k col"
  by (induction m) (auto split: if_splits)

lemma first_occurrences_aux:
  "distinct (map rgba (acc @ cs)) \<Longrightarrow>
   foldl (\<lambda>acc col. if rgba col \<in> set (map rgba acc) then acc else acc @ [col]) acc cs = acc @ cs"
  by (induction cs arbitrary: acc) auto

lemma first_occurrences_distinct: "distinct (map rgba cs) \<Longrightarrow> first_occurrences cs = cs"
  using first_occurrences_aux [of "[]" cs] by (simp add: first_occurrences_def)

lemma q_rgba_grey: "k < 256 \<Longrightarrow> q_rgba (grey k) = int k"
  by (simp add: q_rgba_def grey_def unsigned_of_nat take_bit_nat_eq_self)

lemma grey_rgba_inj: "inj_on (\<lambda>k. rgba (grey k)) {..<256}"
proof (rule inj_onI)
  fix i j :: nat assume "i \<in> {..<256}" "j \<in> {..<256}" "rgba (grey i) = rgba (grey j)"
  then have "(of_nat i :: byte) = of_nat j" "i < 2 ^ LENGTH(8)" "j < 2 ^ LENGTH(8)"
    by (simp_all add: rgba_def grey_def)
  then show "i = j" by (metis of_nat_inverse)
qed

lemma greys_distinct: "distinct (map rgba (map grey [0..<256]))"
  unfolding map_map comp_def
  by (rule iffD2 [OF distinct_map]) (auto intro: inj_on_subset [OF grey_rgba_inj])

lemma sorted_map_int_upt: "sorted (map int [i..<j])"
  by (induction j) (auto simp: sorted_append)

lemma greys_sorted: "sorted (map q_rgba (map grey [0..<256]))"
proof -
  have "map q_rgba (map grey [0..<256]) = map int [0..<256]"
    by (simp add: q_rgba_grey)
  then show ?thesis by (simp only: sorted_map_int_upt)
qed

lemma greys_Color_sort: "Color_sort (map grey [0..<256]) = map grey [0..<256]"
  unfolding Color_sort_def by (rule sort_key_id_if_sorted [OF greys_sorted])

text \<open>
  C9, as stated: every distinct input color gets a distinct label from 1 upwards and label
  0 is never assigned. With 256 colors of distinct \<open>rgba\<close> the color that sorts last
  has index 255, and \<open>np.uint8(255 + 1)\<close> is 0: the background label is assigned.
\<close>

theorem create_color_map_label_zero_counterexample:
  "color_map_get (create_color_map first_occurrences (map grey [0..<256])) (grey 255) = Some 0
   \<and> distinct (map rgba (map grey [0..<256]))"
proof -
  let ?m = "create_color_map first_occurrences (map grey [0..<256])"
  note fo = first_occurrences_distinct [OF greys_distinct]
  have len: "length ?m = 256"
    by (simp add: create_color_map_length fo)
  have "?m ! 255 = (map grey [0..<256] ! 255, of_nat (255 + 1))"
    using create_color_map_nth [of 255 first_occurrences "map grey [0..<256]"]
    by (simp add: fo greys_Color_sort)
  also have "map grey [0..<256] ! 255 = grey 255"
    by (simp del: upt_rec_numeral)
  finally have at: "?m ! 255 = (grey 255, 0)" by simp
  have "?m ! 255 \<in> set ?m" by (rule nth_mem) (simp add: len)
  then have mem: "(grey 255, 0) \<in> set ?m" by (simp add: at)
  have "map (rgba \<circ> fst) ?m = map rgba (map grey [0..<256])"
    using create_color_map_keys [of first_occurrences "map grey [0..<256]"]
    by (simp add: fo greys_Color_sort flip: map_map)
  then have "distinct (map (rgba \<circ> fst) ?m)" using greys_distinct by simp
  from color_map_get_distinct [OF this mem] greys_distinct show ?thesis
    by (simp add: Color_eq_def)
qed

text \<open>
  C9, amended: when the input holds at most 255 distinct colors, the labels of the map are
  1, 2, ... in ascending \<open>q_rgba\<close> order of the keys, they are pairwise distinct,
  label 0 is not among them, every input color is mapped to a label other than 0, and two
  input colors share a label only when their \<open>rgba\<close> values are equal.
\<close>

theorem create_color_map_labels_from_one:
  assumes s: "is_set_of (py_set colors) colors" and n: "length (py_set colors) \<le> 255"
  shows "map snd (create_color_map py_set colors)
           = map (\<lambda>i. of_nat (i + 1)) [0..<length (py_set colors)]
         \<and> sorted (map (q_rgba \<circ> fst) (create_color_map py_set colors))
         \<and> distinct (map snd (create_color_map py_set colors))
         \<and> 0 \<notin> snd ` set (create_color_map py_set colors)
         \<and> (\<forall>col \<in> set colors. \<exists>l. color_map_get (create_color_map py_set colors) col = Some l
                \<and> l \<noteq> 0)
         \<and> (\<forall>c1 \<in> set colors. \<forall>c2 \<in> set colors.
               color_map_get (create_color_map py_set colors) c1
                 = color_map_get (create_color_map py_set colors) c2
               \<longrightarrow> rgba c1 = rgba c2)"
proof -
  let ?m = "create_color_map py_set colors"
  let ?n = "length (py_set colors)"
  have keys: "map fst ?m = Color_sort (py_set colors)" by (rule create_color_map_keys)
  have labels: "map snd ?m = map (\<lambda>i. of_nat (i + 1)) [0..<?n]"
    by (rule create_color_map_labels)
  have srt: "sorted (map (q_rgba \<circ> fst) ?m)"
    using keys by (simp add: Color_sort_def flip: map_map)
  have "inj_on (\<lambda>i. of_nat (i + 1) :: byte) (set [0..<?n])"
    using n by (intro inj_onI label_inj) auto
  then have dl: "distinct (map snd ?m)"
    unfolding labels by (simp add: distinct_map)
  have nz: "0 \<notin> snd ` set ?m"
  proof
    assume "0 \<in> snd ` set ?m"
    then have "0 \<in> set (map snd ?m)" by simp
    then obtain i where "i < ?n" "(of_nat (i + 1) :: byte) = 0"
      unfolding labels by auto
    with n label_nonzero [of i] show False by simp
  qed
  have "mset (map rgba (map fst ?m)) = mset (map rgba (py_set colors))"
    unfolding keys Color_sort_def by simp
  then have "distinct (map rgba (map fst ?m)) \<longleftrightarrow> distinct (map rgba (py_set colors))"
    by (rule mset_eq_imp_distinct_iff)
  then have dk: "distinct (map (rgba \<circ> fst) ?m)"
    using s by (simp add: is_set_of_def)
  have sk: "fst ` set ?m = set (py_set colors)"
    using arg_cong [OF keys, of set] by (simp add: Color_sort_def)
  have found: "\<exists>l. color_map_get ?m col = Some l \<and> l \<noteq> 0" if "col \<in> set colors" for col
  proof -
    from that s have "rgba col \<in> rgba ` set (py_set colors)" by (simp add: is_set_of_def)
    then obtain k where "k \<in> fst ` set ?m" "rgba k = rgba col" using sk by auto
    then obtain v where kv: "(k, v) \<in> set ?m" and "Color_eq k col"
      by (auto simp: Color_eq_def)
    then have "color_map_get ?m col = Some v" using dk by (intro color_map_get_distinct)
    moreover from kv nz have "v \<noteq> 0" by force
    ultimately show ?thesis by blast
  qed
  have same: "rgba c1 = rgba c2"
    if "c1 \<in> set colors" "c2 \<in> set colors" "color_map_get ?m c1 = color_map_get ?m c2"
    for c1 c2
  proof -
    from found [OF that(1)] obtain l where l1: "color_map_get ?m c1 = Some l" by blast
    with that(3) have l2: "color_map_get ?m c2 = Some l" by simp
    from color_map_get_Some [OF l1] obtain k1 where k1: "(k1, l) \<in> set ?m" "Color_eq k1 c1"
      by blast
    from color_map_get_Some [OF l2] obtain k2 where k2: "(k2, l) \<in> set ?m" "Color_eq k2 c2"
      by blast
    from dl k1(1) k2(1) have "k1 = k2" by (rule distinct_snd_unique)
    with k1 k2 show ?thesis by (simp add: Color_eq_def)
  qed
  from labels srt dl nz found same show ?thesis by blast
qed

theorem create_color_map_labels_from_one_witness:
  "is_set_of (first_occurrences [red, grey 7, red]) [red, grey 7, red]
   \<and> create_color_map first_occurrences [red, grey 7, red] = [(grey 7, 1), (red, 2)]
   \<and> color_map_get (create_color_map first_occurrences [red, grey 7, red]) red = Some 2"
proof -
  have fo: "first_occurrences [red, grey 7, red] = [red, grey 7]"
    by (simp add: first_occurrences_def red_def grey_def rgba_def)
  have h1: "is_set_of (first_occurrences [red, grey 7, red]) [red, grey 7, red]"
    unfolding fo by (auto simp: is_set_of_def red_def grey_def rgba_def)
  have h2: "length (first_occurrences [red, grey 7, red]) \<le> 255"
    by (simp add: fo)
  have m: "create_color_map first_occurrences [red, grey 7, red] = [(grey 7, 1), (red, 2)]"
    unfolding create_color_map_def fo by (simp add: Color_sort_def q_rgba_def red_def grey_def)
  have g: "color_map_get [(grey 7, 1), (red, 2)] red = Some 2"
    by (simp add: Color_eq_def rgba_def red_def grey_def)
  from create_color_map_labels_from_one [of first_occurrences "[red, grey 7, red]", OF h1 h2]
    h1 m g show ?thesis
    by simp
qed

subsection \<open>Byte layout of a served tile\<close>

lemma length_concat_blocks:
  "(\<And>i. i < n \<Longrightarrow> length (f i) = m) \<Longrightarrow> length (concat (map f [0..<n])) = m * n"
  by (induction n) (simp_all add: algebra_simps)

lemma nth_concat_blocks:
  "(\<And>i. i < n \<Longrightarrow> length (f i) = m) \<Longrightarrow> j < m \<Longrightarrow> i < n
     \<Longrightarrow> concat (map f [0..<n]) ! (j + m * i) = f i ! j"
proof (induction n)
  case 0
  then show ?case by simp
next
  case (Suc n)
  have len: "length (concat (map f [0..<n])) = m * n"
    using Suc.prems(1) by (intro length_concat_blocks) simp
  show ?case
  proof (cases "i < n")
    case True
    then have "j + m * i < m * n"
      using Suc.prems(2)
      by (metis add.commute mult_Suc_right Suc_leI mult_le_mono2 add_less_le_mono less_le_trans nat_add_left_cancel_less)
    with True Suc show ?thesis by (simp add: nth_append len)
  next
    case False
    with Suc.prems have "i = n" by simp
    then show ?thesis by (simp add: nth_append len)
  qed
qed

lemma length_tobytes_F: "length (tobytes_F n1 n2 n3 n4 arr) = n1 * n2 * n3 * n4"
  unfolding tobytes_F_def
  by (subst length_concat_blocks [where m = "n1 * n2 * n3"],
      subst length_concat_blocks [where m = "n1 * n2"],
      subst length_concat_blocks [where m = n1]) simp_all

lemma nth_tobytes_F:
  assumes "i < n1" "j < n2" "k < n3" "l < n4"
  shows "tobytes_F n1 n2 n3 n4 arr ! (i + n1 * (j + n2 * (k + n3 * l))) = arr i j k l"
proof -
  let ?row = "\<lambda>l k j. map (\<lambda>i. arr i j k l) [0..<n1]"
  let ?plane = "\<lambda>l k. concat (map (?row l k) [0..<n2])"
  let ?vol = "\<lambda>l. concat (map (?plane l) [0..<n3])"
  have lp: "length (?plane l' k') = n1 * n2" for l' k'
    by (rule length_concat_blocks) simp
  have lv: "length (?vol l') = n1 * n2 * n3" for l'
    by (rule length_concat_blocks) (rule lp)
  have b1: "i + n1 * j < n1 * n2"
  proof -
    have "i + n1 * j < n1 + n1 * j" using assms(1) by simp
    also have "\<dots> = n1 * Suc j" by simp
    also have "\<dots> \<le> n1 * n2" using assms(2) by (intro mult_le_mono2) simp
    finally show ?thesis .
  qed
  have b2: "(i + n1 * j) + (n1 * n2) * k < n1 * n2 * n3"
  proof -
    have "(i + n1 * j) + (n1 * n2) * k < n1 * n2 + (n1 * n2) * k" using b1 by simp
    also have "\<dots> = (n1 * n2) * Suc k" by simp
    also have "\<dots> \<le> (n1 * n2) * n3" using assms(3) by (intro mult_le_mono2) simp
    finally show ?thesis .
  qed
  have idx: "i + n1 * (j + n2 * (k + n3 * l)) = ((i + n1 * j) + (n1 * n2) * k) + (n1 * n2 * n3) * l"
    by (simp add: algebra_simps)
  have "tobytes_F n1 n2 n3 n4 arr ! (i + n1 * (j + n2 * (k + n3 * l)))
          = ?vol l ! ((i + n1 * j) + (n1 * n2) * k)"
    unfolding tobytes_F_def idx
    by (rule nth_concat_blocks [where m = "n1 * n2 * n3"]) (simp_all add: lv b2 assms)
  also have "\<dots> = ?plane l k ! (i + n1 * j)"
    by (rule nth_concat_blocks [where m = "n1 * n2"]) (simp_all add: lp b1 assms)
  also have "\<dots> = ?row l k j ! i"
    by (rule nth_concat_blocks [where m = n1]) (simp_all add: assms)
  also have "\<dots> = arr i j k l" using assms(1) by simp
  finally show ?thesis .
qed

text \<open>
  C7: the body served for a tile of extents \<open>nx\<close> by \<open>ny\<close> by \<open>nz\<close> with
  \<open>nc\<close> channels holds exactly \<open>nx * ny * nz * nc\<close> bytes and nothing else: the
  byte at position \<open>i + nx * (j + ny * (k + nz * l))\<close> is the 8-bit value of the voxel at
  offset \<open>(i, j, k)\<close> in channel \<open>l\<close>, so x varies fastest and the channel slowest.
\<close>

theorem ng_predict_body_layout:
  assumes "shape (arr_roi a) = \<lparr>p_x = int nx, p_y = int ny, p_z = int nz, p_t = 1, p_c = int nc\<rparr>"
  shows "\<exists>body. ng_predict_body to_uint8 a = Inr body
           \<and> length body = nx * ny * nz * nc
           \<and> (\<forall>i < nx. \<forall>j < ny. \<forall>k < nz. \<forall>l < nc.
                 body ! (i + nx * (j + ny * (k + nz * l)))
                   = to_uint8 (arr_value a
                       \<lparr>p_x = p_x (start (arr_roi a)) + int i, p_y = p_y (start (arr_roi a)) + int j,
                        p_z = p_z (start (arr_roi a)) + int k, p_t = p_t (start (arr_roi a)),
                        p_c = p_c (start (arr_roi a)) + int l\<rparr>))"
proof -
  let ?arr = "\<lambda>i j k l. to_uint8 (arr_value a
                ((start (arr_roi a))\<lparr>p_x := p_x (start (arr_roi a)) + int i,
                                      p_y := p_y (start (arr_roi a)) + int j,
                                      p_z := p_z (start (arr_roi a)) + int k,
                                      p_c := p_c (start (arr_roi a)) + int l\<rparr>))"
  have body: "ng_predict_body to_uint8 a = Inr (tobytes_F nx ny nz nc ?arr)"
    by (simp add: ng_predict_body_def raw_xyzc_def assms)
  have upd: "(start (arr_roi a))\<lparr>p_x := vx, p_y := vy, p_z := vz, p_c := vc\<rparr>
               = \<lparr>p_x = vx, p_y = vy, p_z = vz, p_t = p_t (start (arr_roi a)), p_c = vc\<rparr>"
    for vx vy vz vc
    by simp
  have len: "length (tobytes_F nx ny nz nc ?arr) = nx * ny * nz * nc"
    by (rule length_tobytes_F)
  have nth: "tobytes_F nx ny nz nc ?arr ! (i + nx * (j + ny * (k + nz * l))) = ?arr i j k l"
    if "i < nx" "j < ny" "k < nz" "l < nc" for i j k l
    using that by (rule nth_tobytes_F)
  from body len nth show ?thesis
    by (simp add: upd)
qed

theorem ng_predict_body_layout_witness:
  "ng_predict_body (word_of_int :: int \<Rightarrow> byte) small_tile
     = Inr [64, 65, 74, 75, 164, 165, 174, 175]
   \<and> length [64, 65, 74, 75, 164, 165, 174, 175 :: byte] = 2 * 2 * 1 * 2
   \<and> [64, 65, 74, 75, 164, 165, 174, 175 :: byte] ! (1 + 2 * (1 + 2 * (0 + 1 * 1)))
       = word_of_int (5 + 10 * 7 + 100 * 1)"
proof -
  have sh: "shape (arr_roi small_tile)
              = \<lparr>p_x = int 2, p_y = int 2, p_z = int 1, p_t = 1, p_c = int 2\<rparr>"
    by (simp add: small_tile_def shape_def point_sub_def)
  have v: "ng_predict_body (word_of_int :: int \<Rightarrow> byte) small_tile
             = Inr [64, 65, 74, 75, 164, 165, 174, 175]"
    by (simp add: ng_predict_body_def raw_xyzc_def small_tile_def shape_def point_sub_def
        tobytes_F_def numeral_2_eq_2)
  from ng_predict_body_layout [OF sh, of word_of_int] v show ?thesis by simp
qed

subsection \<open>Batches of the process pool\<close>

lemma do_predict_map: "do_predict predict (c, batch) = map (predict c) batch"
proof -
  have "foldl (\<lambda>out s. out @ [predict c s]) acc batch = acc @ map (predict c) batch" for acc
    by (induction batch arbitrary: acc) simp_all
  then show ?thesis by (simp add: do_predict_def)
qed

lemma merge_batches_concat: "merge_batches bs = concat bs"
proof -
  have inner: "foldl (\<lambda>m r. m @ [r]) acc b = acc @ b" for acc and b :: "'a list"
    by (induction b arbitrary: acc) simp_all
  have "foldl (\<lambda>merged b. foldl (\<lambda>m r. m @ [r]) merged b) acc bs = acc @ concat bs" for acc
    by (induction bs arbitrary: acc) (simp_all add: inner)
  then show ?thesis by (simp add: merge_batches_def)
qed

lemma concat_chunks: "concat (map (\<lambda>k. take b (drop (k * b) xs)) [0..<m]) = take (m * b) xs"
proof (induction m)
  case 0
  then show ?case by simp
next
  case (Suc m)
  have "take (Suc m * b) xs = take (m * b + b) xs" by (simp add: add.commute)
  also have "\<dots> = take (m * b) xs @ take b (drop (m * b) xs)" by (rule take_add)
  finally show ?case using Suc by simp
qed

lemma ceil_div_cover: "0 < w \<Longrightarrow> n \<le> ceil_div n w * w"
  unfolding ceil_div_def
  using div_mult_mod_eq [of "n + w - 1" w] mod_less_divisor [of w "n + w - 1"]
  by linarith

lemma ceil_div_le: "0 < b \<Longrightarrow> n \<le> w * b \<Longrightarrow> ceil_div n b \<le> w"
proof -
  assume "0 < b" "n \<le> w * b"
  then have "n + b - 1 < Suc w * b" by simp
  then have "(n + b - 1) div b < Suc w" by (rule less_mult_imp_div_less)
  then show ?thesis by (simp add: ceil_div_def)
qed

lemma ceil_div_last: "0 < b \<Longrightarrow> k < ceil_div n b \<Longrightarrow> k * b < n"
  using ceil_div_le [of b n k] by (cases "n \<le> k * b") auto

lemma ceil_div_pos: "0 < w \<Longrightarrow> 0 < n \<Longrightarrow> 0 < ceil_div n w"
  by (simp add: ceil_div_def div_greater_zero_iff)

lemma process_pool_batches_eq:
  assumes "0 < num_workers" "all_slices \<noteq> []"
  shows "process_pool_batches c all_slices num_workers
           = Inr (map (\<lambda>k. (c, take (ceil_div (length all_slices) (nat num_workers))
                                (drop (k * ceil_div (length all_slices) (nat num_workers)) all_slices)))
                    [0..<ceil_div (length all_slices)
                           (ceil_div (length all_slices) (nat num_workers))])"
proof -
  have "0 < ceil_div (length all_slices) (nat num_workers)"
    using assms by (intro ceil_div_pos) simp_all
  then show ?thesis
    using assms(1) by (simp add: process_pool_batches_def py_range_step_def Let_def comp_def)
qed

lemma benchmark_batches:
  assumes "0 < num_workers" "all_slices \<noteq> []"
  shows "\<exists>batches. process_pool_batches c all_slices num_workers = Inr batches
           \<and> concat (map snd batches) = all_slices
           \<and> int (length batches) \<le> num_workers
           \<and> (\<forall>b \<in> set batches. fst b = c \<and> snd b \<noteq> []
                 \<and> length (snd b) \<le> ceil_div (length all_slices) (nat num_workers))
           \<and> process_pool_run predict c all_slices num_workers = Inr (map (predict c) all_slices)"
proof -
  let ?n = "length all_slices"
  let ?b = "ceil_div ?n (nat num_workers)"
  let ?m = "ceil_div ?n ?b"
  let ?batches = "map (\<lambda>k. (c, take ?b (drop (k * ?b) all_slices))) [0..<?m]"
  have w: "0 < nat num_workers" using assms(1) by simp
  have b: "0 < ?b" using assms by (intro ceil_div_pos) simp_all
  have eq: "process_pool_batches c all_slices num_workers = Inr ?batches"
    by (rule process_pool_batches_eq [OF assms])
  have cover: "?n \<le> ?m * ?b" by (rule ceil_div_cover [OF b])
  have cat: "concat (map snd ?batches) = all_slices"
    using cover by (simp add: comp_def concat_chunks)
  have "?n \<le> nat num_workers * ?b"
    using ceil_div_cover [OF w, of ?n] by (simp add: mult.commute)
  then have "?m \<le> nat num_workers" by (rule ceil_div_le [OF b])
  then have len: "int (length ?batches) \<le> num_workers" using assms(1) by simp
  have each: "fst x = c \<and> snd x \<noteq> [] \<and> length (snd x) \<le> ?b" if "x \<in> set ?batches" for x
  proof -
    from that obtain k where k: "k < ?m" and x: "x = (c, take ?b (drop (k * ?b) all_slices))"
      by auto
    from ceil_div_last [OF b k] have "k * ?b < ?n" .
    with b show ?thesis by (simp add: x)
  qed
  have "process_pool_run predict c all_slices num_workers
          = Inr (concat (map (\<lambda>x. map (predict c) (snd x)) ?batches))"
    unfolding process_pool_run_def eq
    by (simp add: merge_batches_concat comp_def do_predict_map)
  also have "concat (map (\<lambda>x. map (predict c) (snd x)) ?batches)
               = map (predict c) (concat (map snd ?batches))"
    by (simp add: map_concat comp_def)
  finally have run: "process_pool_run predict c all_slices num_workers
                       = Inr (map (predict c) all_slices)"
    by (simp only: cat)
  from eq cat len each run show ?thesis by blast
qed

lemma benchmark_batches_exact:
  assumes "0 < num_workers" "all_slices \<noteq> []"
  shows "\<exists>batches. process_pool_batches c all_slices num_workers = Inr batches
           \<and> length batches
               = ceil_div (length all_slices) (ceil_div (length all_slices) (nat num_workers))
           \<and> (\<forall>i < length batches.
                 batches ! i
                   = (c, take (ceil_div (length all_slices) (nat num_workers))
                           (drop (i * ceil_div (length all_slices) (nat num_workers)) all_slices)))
           \<and> (\<forall>i. Suc i < length batches
                 \<longrightarrow> length (snd (batches ! i)) = ceil_div (length all_slices) (nat num_workers))"
proof -
  let ?n = "length all_slices"
  let ?b = "ceil_div ?n (nat num_workers)"
  let ?m = "ceil_div ?n ?b"
  let ?batches = "map (\<lambda>k. (c, take ?b (drop (k * ?b) all_slices))) [0..<?m]"
  have b: "0 < ?b" using assms by (intro ceil_div_pos) simp_all
  have eq: "process_pool_batches c all_slices num_workers = Inr ?batches"
    by (rule process_pool_batches_eq [OF assms])
  have len: "length ?batches = ?m" by simp
  have nth: "?batches ! i = (c, take ?b (drop (i * ?b) all_slices))" if "i < length ?batches" for i
    using that by simp
  have full: "length (snd (?batches ! i)) = ?b" if "Suc i < length ?batches" for i
  proof -
    from that have "Suc i < ?m" by simp
    from ceil_div_last [OF b this] have "Suc i * ?b < ?n" .
    then have "i * ?b + ?b \<le> ?n" by simp
    moreover from that have "i < ?m" by simp
    ultimately show ?thesis by simp
  qed
  from eq len nth full show ?thesis by blast
qed

lemma dict_append_keys:
  "map fst (dict_append d k v) = (if k \<in> fst ` set d then map fst d else map fst d @ [k])"
  by (induction d) (auto simp: rev_image_eqI)

lemma dict_append_map_of:
  "map_of (dict_append d k v)
     = (map_of d)(k \<mapsto> (case map_of d k of None \<Rightarrow> [v] | Some vs \<Rightarrow> vs @ [v]))"
  by (induction d) (auto simp: fun_upd_twist)

lemma dict_append_mset:
  "mset (concat (map snd (dict_append d k v))) = mset (concat (map snd d)) + {#v#}"
  by (induction d) auto

lemma group_tiles_snoc: "group_tiles key (xs @ [x]) = dict_append (group_tiles key xs) (key x) x"
  by (simp add: group_tiles_def)

lemma group_tiles_keys: "distinct (map fst (group_tiles key xs)) \<and> set (map fst (group_tiles key xs)) = key ` set xs"
proof (induction xs rule: rev_induct)
  case Nil
  then show ?case by (simp add: group_tiles_def)
next
  case (snoc x xs)
  then show ?case by (auto simp: group_tiles_snoc dict_append_keys)
qed

lemma group_tiles_map_of:
  "map_of (group_tiles key xs) k
     = (if k \<in> key ` set xs then Some (filter (\<lambda>s. key s = k) xs) else None)"
proof (induction xs rule: rev_induct)
  case Nil
  then show ?case by (simp add: group_tiles_def)
next
  case (snoc x xs)
  then show ?case
    by (auto simp: group_tiles_snoc dict_append_map_of filter_empty_conv image_iff; metis)
qed

lemma group_tiles_mset: "mset (concat (map snd (group_tiles key xs))) = mset xs"
  by (induction xs rule: rev_induct) (simp_all add: group_tiles_snoc dict_append_mset, simp add: group_tiles_def)

lemma group_tiles_entry:
  assumes "(k, b) \<in> set (group_tiles key xs)"
  shows "k \<in> key ` set xs \<and> b = filter (\<lambda>s. key s = k) xs \<and> b \<noteq> []"
proof -
  from assms group_tiles_keys [of key xs] have "map_of (group_tiles key xs) k = Some b" by simp
  then have k: "k \<in> key ` set xs" and b: "b = filter (\<lambda>s. key s = k) xs"
    by (simp_all add: group_tiles_map_of split: if_splits)
  from k obtain s where "s \<in> set xs" "key s = k" by auto
  then have "s \<in> set (filter (\<lambda>s. key s = k) xs)" by simp
  then have "b \<noteq> []" unfolding b by (metis empty_iff empty_set)
  with k b show ?thesis by simp
qed


lemma group_tiles_keys_order:
  "map fst (group_tiles key xs) = rev (remdups (rev (map key xs)))"
proof (induction xs rule: rev_induct)
  case Nil
  then show ?case by (simp add: group_tiles_def)
next
  case (snoc x xs)
  have "set (map fst (group_tiles key xs)) = key ` set xs"
    using group_tiles_keys [of key xs] by simp
  then have "fst ` set (group_tiles key xs) = key ` set xs" by simp
  with snoc show ?case
    by (simp add: group_tiles_snoc dict_append_keys)
qed

lemma server_batches:
  assumes "0 < num_workers"
  shows "\<exists>batches. do_predictions_batches hash tiles num_workers = Inr batches
           \<and> map fst batches
               = rev (remdups (rev (map (\<lambda>slc. hash slc mod num_workers) tiles)))
           \<and> distinct (map fst batches)
           \<and> int (length batches) \<le> num_workers
           \<and> (\<forall>(idx, batch) \<in> set batches. 0 \<le> idx \<and> idx < num_workers \<and> batch \<noteq> []
                 \<and> batch = filter (\<lambda>slc. hash slc mod num_workers = idx) tiles)
           \<and> mset (concat (map snd batches)) = mset tiles
           \<and> do_predictions hash predict c tiles num_workers
               = Inr (concat (map (\<lambda>(idx, batch). map (predict c) batch) batches))"
proof -
  let ?key = "\<lambda>slc. hash slc mod num_workers"
  let ?bs = "group_tiles ?key tiles"
  have eq: "do_predictions_batches hash tiles num_workers = Inr ?bs"
    using assms by (simp add: do_predictions_batches_def group_tiles_def)
  have d: "distinct (map fst ?bs)" using group_tiles_keys [of ?key tiles] by simp
  have "set (map fst ?bs) \<subseteq> {0..<num_workers}"
    using group_tiles_keys [of ?key tiles] assms by auto
  then have "card (set (map fst ?bs)) \<le> card {0..<num_workers}"
    by (intro card_mono) simp_all
  then have len: "int (length ?bs) \<le> num_workers"
    using distinct_card [OF d] assms by simp
  have each: "0 \<le> idx \<and> idx < num_workers \<and> batch \<noteq> []
              \<and> batch = filter (\<lambda>slc. hash slc mod num_workers = idx) tiles"
    if "(idx, batch) \<in> set ?bs" for idx batch
    using group_tiles_entry [OF that] assms by auto
  have ord: "map fst ?bs = rev (remdups (rev (map ?key tiles)))"
    by (rule group_tiles_keys_order)
  have m: "mset (concat (map snd ?bs)) = mset tiles" by (rule group_tiles_mset)
  have run: "do_predictions hash predict c tiles num_workers
               = Inr (concat (map (\<lambda>(idx, batch). map (predict c) batch) ?bs))"
    unfolding do_predictions_def eq
    by (simp add: merge_batches_concat do_predict_map)
  from eq ord d len each m run show ?thesis by blast
qed

text \<open>
  C5, as stated: the tile list is cut into \<open>worker_count\<close> contiguous batches. The
  benchmark cuts 5 tiles for 4 workers into batches of \<open>ceil(5 / 4) = 2\<close> tiles, which
  makes 3 batches.
\<close>

theorem process_pool_worker_count_counterexample:
  "process_pool_batches () [1, 2, 3, 4, 5 :: nat] 4 = Inr [((), [1, 2]), ((), [3, 4]), ((), [5])]
   \<and> length [((), [1, 2]), ((), [3, 4]), ((), [5 :: nat])] \<noteq> 4"
  by (simp add: process_pool_batches_def py_range_step_def ceil_div_def Let_def upt_conv_Cons)


text \<open>
  C5, amended: for a positive worker count the benchmark's process-pool branch cuts a
  tile list of \<open>n > 0\<close> tiles into \<open>ceil(n / b)\<close> contiguous batches, where
  \<open>b = ceil(n / worker_count)\<close>: batch \<open>i\<close> holds the tiles from position \<open>i * b\<close> up to,
  but not including, position \<open>(i + 1) * b\<close> or the end of the list, so every batch but the
  last has exactly \<open>b\<close> tiles, none is empty, there are at most \<open>worker_count\<close> batches, and
  their concatenation is the tile list; every batch travels with the classifier, a worker
  predicts its batch in order, and the coordinator merges the returned lists in batch
  order, which is the order of the tiles. The server's \<open>do_predictions\<close> groups the tiles
  by \<open>hash(tile) % num_workers\<close> instead: one batch per occupied bucket, in the order in
  which the buckets first occur in the tile list, at most \<open>num_workers\<close> batches, each the
  tiles of its bucket in tile order, together the tiles of the list, merged batch after
  batch.
\<close>

theorem process_pool_orchestration:
  assumes "0 < num_workers"
  shows "(all_slices \<noteq> [] \<longrightarrow>
           (\<exists>batches. process_pool_batches c all_slices num_workers = Inr batches
              \<and> length batches
                  = ceil_div (length all_slices) (ceil_div (length all_slices) (nat num_workers))
              \<and> (\<forall>i < length batches.
                    batches ! i
                      = (c, take (ceil_div (length all_slices) (nat num_workers))
                              (drop (i * ceil_div (length all_slices) (nat num_workers))
                                 all_slices)))
              \<and> (\<forall>i. Suc i < length batches
                    \<longrightarrow> length (snd (batches ! i))
                        = ceil_div (length all_slices) (nat num_workers))
              \<and> concat (map snd batches) = all_slices
              \<and> int (length batches) \<le> num_workers
              \<and> (\<forall>b \<in> set batches. fst b = c \<and> snd b \<noteq> []
                    \<and> length (snd b) \<le> ceil_div (length all_slices) (nat num_workers))
              \<and> process_pool_run predict c all_slices num_workers
                  = Inr (map (predict c) all_slices)))
         \<and> (\<exists>batches. do_predictions_batches hash all_slices num_workers = Inr batches
              \<and> map fst batches
                  = rev (remdups (rev (map (\<lambda>slc. hash slc mod num_workers) all_slices)))
              \<and> distinct (map fst batches)
              \<and> int (length batches) \<le> num_workers
              \<and> (\<forall>(idx, batch) \<in> set batches. 0 \<le> idx \<and> idx < num_workers \<and> batch \<noteq> []
                    \<and> batch = filter (\<lambda>slc. hash slc mod num_workers = idx) all_slices)
              \<and> mset (concat (map snd batches)) = mset all_slices
              \<and> do_predictions hash predict c all_slices num_workers
                  = Inr (concat (map (\<lambda>(idx, batch). map (predict c) batch) batches)))"
proof (intro conjI impI)
  assume ne: "all_slices \<noteq> []"
  from benchmark_batches [OF assms ne, of c predict] obtain batches
    where eq: "process_pool_batches c all_slices num_workers = Inr batches"
      and rest: "concat (map snd batches) = all_slices"
        "int (length batches) \<le> num_workers"
        "\<forall>b \<in> set batches. fst b = c \<and> snd b \<noteq> []
            \<and> length (snd b) \<le> ceil_div (length all_slices) (nat num_workers)"
        "process_pool_run predict c all_slices num_workers = Inr (map (predict c) all_slices)"
    by blast
  from benchmark_batches_exact [OF assms ne, of c] eq
  have exact: "length batches
                 = ceil_div (length all_slices) (ceil_div (length all_slices) (nat num_workers))"
      "\<forall>i < length batches.
          batches ! i
            = (c, take (ceil_div (length all_slices) (nat num_workers))
                    (drop (i * ceil_div (length all_slices) (nat num_workers)) all_slices))"
      "\<forall>i. Suc i < length batches
          \<longrightarrow> length (snd (batches ! i)) = ceil_div (length all_slices) (nat num_workers)"
    by auto
  from eq exact rest
  show "\<exists>batches. process_pool_batches c all_slices num_workers = Inr batches
              \<and> length batches
                  = ceil_div (length all_slices) (ceil_div (length all_slices) (nat num_workers))
              \<and> (\<forall>i < length batches.
                    batches ! i
                      = (c, take (ceil_div (length all_slices) (nat num_workers))
                              (drop (i * ceil_div (length all_slices) (nat num_workers))
                                 all_slices)))
              \<and> (\<forall>i. Suc i < length batches
                    \<longrightarrow> length (snd (batches ! i))
                        = ceil_div (length all_slices) (nat num_workers))
              \<and> concat (map snd batches) = all_slices
              \<and> int (length batches) \<le> num_workers
              \<and> (\<forall>b \<in> set batches. fst b = c \<and> snd b \<noteq> []
                    \<and> length (snd b) \<le> ceil_div (length all_slices) (nat num_workers))
              \<and> process_pool_run predict c all_slices num_workers
                  = Inr (map (predict c) all_slices)"
    by blast
next
  show "\<exists>batches. do_predictions_batches hash all_slices num_workers = Inr batches
              \<and> map fst batches
                  = rev (remdups (rev (map (\<lambda>slc. hash slc mod num_workers) all_slices)))
              \<and> distinct (map fst batches)
              \<and> int (length batches) \<le> num_workers
              \<and> (\<forall>(idx, batch) \<in> set batches. 0 \<le> idx \<and> idx < num_workers \<and> batch \<noteq> []
                    \<and> batch = filter (\<lambda>slc. hash slc mod num_workers = idx) all_slices)
              \<and> mset (concat (map snd batches)) = mset all_slices
              \<and> do_predictions hash predict c all_slices num_workers
                  = Inr (concat (map (\<lambda>(idx, batch). map (predict c) batch) batches))"
    by (rule server_batches [OF assms])
qed

theorem process_pool_orchestration_witness:
  "(0::int) < 2
   \<and> process_pool_batches () [1, 2, 3, 4, 5 :: nat] 2 = Inr [((), [1, 2, 3]), ((), [4, 5])]
   \<and> process_pool_run (\<lambda>c t. 10 * t) () [1, 2, 3, 4, 5 :: nat] 2 = Inr [10, 20, 30, 40, 50]
   \<and> do_predictions_batches int [1, 2, 3, 4, 5 :: nat] 2 = Inr [(1, [1, 3, 5]), (0, [2, 4])]
   \<and> do_predictions int (\<lambda>c t. 10 * t) () [1, 2, 3, 4, 5 :: nat] 2 = Inr [10, 30, 50, 20, 40]"
proof -
  have w: "(0::int) < 2" by simp
  have b: "process_pool_batches () [1, 2, 3, 4, 5 :: nat] 2 = Inr [((), [1, 2, 3]), ((), [4, 5])]"
    by (simp add: process_pool_batches_def py_range_step_def ceil_div_def Let_def upt_conv_Cons)
  have s: "do_predictions_batches int [1, 2, 3, 4, 5 :: nat] 2 = Inr [(1, [1, 3, 5]), (0, [2, 4])]"
    by (simp add: do_predictions_batches_def group_tiles_def)
  note T = process_pool_orchestration [OF w, of "[1, 2, 3, 4, 5 :: nat]" "()" "\<lambda>c t. 10 * t" int]
  have ne: "[1, 2, 3, 4, 5 :: nat] \<noteq> []" by simp
  from T [THEN conjunct1, THEN mp, OF ne]
  have r1: "process_pool_run (\<lambda>c t. 10 * t) () [1, 2, 3, 4, 5 :: nat] 2
              = Inr (map (\<lambda>t. 10 * t) [1, 2, 3, 4, 5])"
    by blast
  from T [THEN conjunct2] obtain batches
    where "do_predictions_batches int [1, 2, 3, 4, 5 :: nat] 2 = Inr batches"
      and "do_predictions int (\<lambda>c t. 10 * t) () [1, 2, 3, 4, 5 :: nat] 2
             = Inr (concat (map (\<lambda>(idx, batch). map (\<lambda>t. 10 * t) batch) batches))"
    by blast
  then have r2: "do_predictions int (\<lambda>c t. 10 * t) () [1, 2, 3, 4, 5 :: nat] 2
                   = Inr [10, 30, 50, 20, 40]"
    unfolding s by auto
  have "process_pool_run (\<lambda>c t. 10 * t) () [1, 2, 3, 4, 5 :: nat] 2 = Inr [10, 20, 30, 40, 50]"
    and "do_predictions int (\<lambda>c t. 10 * t) () [1, 2, 3, 4, 5 :: nat] 2 = Inr [10, 30, 50, 20, 40]"
    using r1 r2 by simp_all
  with w b s show ?thesis by simp
qed

subsection \<open>Applicability of an extractor to a source\<close>

lemma not_point_ge_iff: "\<not> point_ge s k \<longleftrightarrow> (\<exists>a. coord a s < coord a k)"
proof
  assume "\<not> point_ge s k"
  then consider "p_x s < p_x k" | "p_y s < p_y k" | "p_z s < p_z k" | "p_t s < p_t k" | "p_c s < p_c k"
    by (auto simp: point_ge_def)
  then show "\<exists>a. coord a s < coord a k"
  proof cases
    case 1 then have "coord X s < coord X k" by simp then show ?thesis ..
  next
    case 2 then have "coord Y s < coord Y k" by simp then show ?thesis ..
  next
    case 3 then have "coord Z s < coord Z k" by simp then show ?thesis ..
  next
    case 4 then have "coord T s < coord T k" by simp then show ?thesis ..
  next
    case 5 then have "coord C s < coord C k" by simp then show ?thesis ..
  qed
next
  assume "\<exists>a. coord a s < coord a k"
  then obtain a where "coord a s < coord a k" ..
  then show "\<not> point_ge s k" by (cases a) (auto simp: point_ge_def)
qed

lemma coord_point_scale: "coord a (point_scale p k) = coord a p * k"
  by (cases a) (simp_all add: point_scale_def)

text \<open>
  C4: an extractor is inapplicable to a source exactly when the source's shape is smaller
  than the kernel requirement on some axis or, for a channelwise filter, when the source's
  channel count is not the expected number of input channels; for a fast filter the
  requirement is twice its halo. \<open>ensure_applicable\<close> raises
  \<open>FeatureDataMismatchException\<close> exactly when the extractor is inapplicable and returns
  otherwise. An extractor with a 7 by 7 kernel is inapplicable to a 5 by 5 source.
\<close>

theorem applicability_check:
  "(\<not> is_applicable_to fx ds \<longleftrightarrow>
      (\<exists>a. coord a (ds_shape ds) < coord a (kernel_shape fx))
      \<or> (\<exists>axis_2d n ks m kid. fx = ChannelwiseFilter axis_2d n ks m kid \<and> p_c (ds_shape ds) \<noteq> n))
   \<and> (ensure_applicable fx ds = Inl (FeatureDataMismatchException fx ds) \<longleftrightarrow> \<not> is_applicable_to fx ds)
   \<and> (ensure_applicable fx ds = Inr () \<longleftrightarrow> is_applicable_to fx ds)
   \<and> (\<not> fast_is_applicable_to f ds \<longleftrightarrow> (\<exists>a. coord a (ds_shape ds) < coord a (fast_halo f) * 2))
   \<and> (p_x (kernel_shape fx) = 7 \<and> p_y (kernel_shape fx) = 7
        \<and> p_x (ds_shape ds) = 5 \<and> p_y (ds_shape ds) = 5
      \<longrightarrow> \<not> is_applicable_to fx ds
          \<and> ensure_applicable fx ds = Inl (FeatureDataMismatchException fx ds))"
proof -
  have a: "\<not> is_applicable_to fx ds \<longleftrightarrow>
      (\<exists>a. coord a (ds_shape ds) < coord a (kernel_shape fx))
      \<or> (\<exists>axis_2d n ks m kid. fx = ChannelwiseFilter axis_2d n ks m kid \<and> p_c (ds_shape ds) \<noteq> n)"
    by (cases fx) (auto simp: not_point_ge_iff [symmetric])
  have b: "\<not> fast_is_applicable_to f ds \<longleftrightarrow> (\<exists>a. coord a (ds_shape ds) < coord a (fast_halo f) * 2)"
    by (simp add: fast_is_applicable_to_def not_point_ge_iff coord_point_scale)
  have c: "\<not> is_applicable_to fx ds"
    if "p_x (kernel_shape fx) = 7" "p_x (ds_shape ds) = 5"
  proof -
    from that have "coord X (ds_shape ds) < coord X (kernel_shape fx)" by simp
    then show ?thesis unfolding a by blast
  qed
  have d: "ensure_applicable fx ds = Inl (FeatureDataMismatchException fx ds)
             \<longleftrightarrow> \<not> is_applicable_to fx ds"
    by (simp add: ensure_applicable_def)
  have e: "ensure_applicable fx ds = Inr () \<longleftrightarrow> is_applicable_to fx ds"
    by (simp add: ensure_applicable_def)
  have g: "p_x (kernel_shape fx) = 7 \<and> p_y (kernel_shape fx) = 7
             \<and> p_x (ds_shape ds) = 5 \<and> p_y (ds_shape ds) = 5
           \<longrightarrow> \<not> is_applicable_to fx ds
               \<and> ensure_applicable fx ds = Inl (FeatureDataMismatchException fx ds)"
    using c d by blast
  show ?thesis by (intro conjI a d e b g)
qed

theorem applicability_check_witness:
  "p_x (kernel_shape seven_by_seven) = 7 \<and> p_y (kernel_shape seven_by_seven) = 7
   \<and> p_x (ds_shape five_by_five) = 5 \<and> p_y (ds_shape five_by_five) = 5
   \<and> \<not> is_applicable_to seven_by_seven five_by_five
   \<and> ensure_applicable seven_by_seven five_by_five = Inl (FeatureDataMismatchException seven_by_seven five_by_five)
   \<and> is_applicable_to seven_by_seven small_source
   \<and> \<not> fast_is_applicable_to plain_filter small_source"
proof -
  have h: "p_x (kernel_shape seven_by_seven) = 7 \<and> p_y (kernel_shape seven_by_seven) = 7
           \<and> p_x (ds_shape five_by_five) = 5 \<and> p_y (ds_shape five_by_five) = 5"
    by (simp add: seven_by_seven_def five_by_five_def ds_shape_def shape_def point_sub_def Point5D_zero_def)
  have ok: "is_applicable_to seven_by_seven small_source"
    by (simp add: seven_by_seven_def small_source_def ds_shape_def shape_def point_sub_def
        Point5D_zero_def point_ge_def)
  have "coord Z (ds_shape small_source) < coord Z (fast_halo plain_filter) * 2"
    by (simp add: small_source_def ds_shape_def shape_def point_sub_def Point5D_zero_def
        fast_halo_def plain_filter_def)
  then have "\<exists>a. coord a (ds_shape small_source) < coord a (fast_halo plain_filter) * 2" ..
  with applicability_check [of seven_by_seven small_source plain_filter]
  have no: "\<not> fast_is_applicable_to plain_filter small_source" by blast
  from applicability_check [of seven_by_seven five_by_five plain_filter] h
  have "\<not> is_applicable_to seven_by_seven five_by_five
        \<and> ensure_applicable seven_by_seven five_by_five = Inl (FeatureDataMismatchException seven_by_seven five_by_five)"
    by blast
  with h ok no show ?thesis by blast
qed

subsection \<open>Regions handed to the kernel of a fast filter\<close>

lemma axis_tiles_unit: "iv \<in> set (axis_tiles lo hi 1) \<Longrightarrow> snd iv - fst iv = 1"
  by (auto simp: axis_tiles_def)

lemma split_axis_tiles:
  assumes "tile \<in> set (split r s)"
  shows "(coord a (start tile), coord a (stop tile))
           \<in> set (axis_tiles (coord a (start r)) (coord a (stop r)) (coord a s))"
  using assms by (cases a) (auto simp: split_def)

lemma split_unit_axis:
  assumes "tile \<in> set (split r s)" "coord a s = 1"
  shows "coord a (shape tile) = 1"
proof -
  have "coord a (shape tile) = coord a (stop tile) - coord a (start tile)"
    by (cases a) (simp_all add: shape_def point_sub_def)
  with axis_tiles_unit [OF split_axis_tiles [OF assms(1), of a, unfolded assms(2)]]
  show ?thesis by simp
qed

lemma coord_updated: "coord a (updated p b v) = (if a = b then v else coord a p)"
  by (cases a; cases b) simp_all

lemma roi_step_of_c: "p_c (roi_step_of axis_2d s) = 1"
proof (cases axis_2d)
  case None
  then show ?thesis by (simp add: roi_step_of_def)
next
  case (Some a)
  then show ?thesis by (cases a) (simp_all add: roi_step_of_def)
qed

lemma roi_step_of_t: "p_t (roi_step_of axis_2d s) = 1"
proof (cases axis_2d)
  case None
  then show ?thesis by (simp add: roi_step_of_def)
next
  case (Some a)
  then show ?thesis by (cases a) (simp_all add: roi_step_of_def)
qed

lemma roi_step_of_axis_2d: "coord a (roi_step_of (Some a) s) = 1"
  by (cases a) (simp_all add: roi_step_of_def)

text \<open>
  The halo of a fast filter does not depend on the filter's kind or scales.
\<close>

lemma fast_halo_fixed: "fast_halo (f\<lparr>ff_kind := k, ff_presmooth_sigma := s\<rparr>) = fast_halo f"
  by (simp add: fast_halo_def)

text \<open>
  C1, as stated: the enlarged sub-region is clamped to the data source's bounds before the
  kernel's input is fetched. For the corner of a 100 by 100 by 100 source the region
  handed to the preprocessor starts at -30 on x, y and z: it is the enlarged region, which
  is not inside the source's bounds and differs from its clamped version.
\<close>

theorem fast_compute_unclamped_counterexample:
  "map (roi_interval \<circ> source_call_roi \<circ> sp_source) (fast_compute_plan plain_filter corner_roi)
     = [\<lparr>start = \<lparr>p_x = - 30, p_y = - 30, p_z = - 30, p_t = 0, p_c = 0\<rparr>,
         stop = \<lparr>p_x = 40, p_y = 40, p_z = 40, p_t = 1, p_c = 1\<rparr>\<rparr>]
   \<and> clamped \<lparr>start = \<lparr>p_x = - 30, p_y = - 30, p_z = - 30, p_t = 0, p_c = 0\<rparr>,
               stop = \<lparr>p_x = 40, p_y = 40, p_z = 40, p_t = 1, p_c = 1\<rparr>\<rparr>
        (ds_roi (roi_source corner_roi))
     = \<lparr>start = \<lparr>p_x = 0, p_y = 0, p_z = 0, p_t = 0, p_c = 0\<rparr>,
        stop = \<lparr>p_x = 40, p_y = 40, p_z = 40, p_t = 1, p_c = 1\<rparr>\<rparr>
   \<and> \<not> contains (ds_roi (roi_source corner_roi))
         \<lparr>start = \<lparr>p_x = - 30, p_y = - 30, p_z = - 30, p_t = 0, p_c = 0\<rparr>,
          stop = \<lparr>p_x = 40, p_y = 40, p_z = 40, p_t = 1, p_c = 1\<rparr>\<rparr>"
  by (simp add: fast_compute_plan_def split_roi_def split_def axis_tiles_def roi_step_of_def
      roi_shape_def shape_def point_sub_def point_add_def Point5D_zero_def corner_roi_def
      plain_filter_def fast_halo_def roi_enlarged_def enlarged_def source_call_roi_def
      clamped_def point_max_def point_min_def cube_source_def contains_def point_ge_def
      point_le_def Let_def)

text \<open>
  C1, amended: \<open>compute\<close> makes one step per tile of the split, each tile one channel
  and one time point wide (and one slice thick along \<open>axis_2d\<close>); the region of the
  step's source call is the tile enlarged symmetrically by the filter's halo on the same
  data source, with no clamping; the call goes to a Gaussian smoothing filter of sigma
  \<open>presmooth_sigma\<close> and window size 3.5 when \<open>presmooth_sigma > 0\<close>, and to the
  preprocessor otherwise.
\<close>

theorem fast_compute_enlarges_by_halo:
  "length (fast_compute_plan f roi)
     = length (split_roi roi (roi_step_of (ff_axis_2d f) (roi_shape roi)))
   \<and> (\<forall>i < length (fast_compute_plan f roi).
        roi_source (sp_cut (fast_compute_plan f roi ! i)) = roi_source roi
        \<and> sp_cut (fast_compute_plan f roi ! i)
            = split_roi roi (roi_step_of (ff_axis_2d f) (roi_shape roi)) ! i
        \<and> p_c (roi_shape (sp_cut (fast_compute_plan f roi ! i))) = 1
        \<and> p_t (roi_shape (sp_cut (fast_compute_plan f roi ! i))) = 1
        \<and> (\<forall>a. ff_axis_2d f = Some a
               \<longrightarrow> coord a (roi_shape (sp_cut (fast_compute_plan f roi ! i))) = 1)
        \<and> source_call_roi (sp_source (fast_compute_plan f roi ! i))
            = \<lparr>roi_source = roi_source roi,
               roi_interval =
                 \<lparr>start = point_sub (start (roi_interval (sp_cut (fast_compute_plan f roi ! i))))
                            (fast_halo f),
                  stop = point_add (stop (roi_interval (sp_cut (fast_compute_plan f roi ! i))))
                           (fast_halo f)\<rparr>\<rparr>
        \<and> (ff_presmooth_sigma f > 0
             \<longrightarrow> (\<exists>g. sp_source (fast_compute_plan f roi ! i)
                         = FilterCompute g (source_call_roi (sp_source (fast_compute_plan f roi ! i)))
                      \<and> ff_kind g = GaussianSmoothing (ff_presmooth_sigma f) 3.5
                      \<and> ff_axis_2d g = ff_axis_2d f \<and> ff_presmooth_sigma g = 0))
        \<and> (\<not> ff_presmooth_sigma f > 0
             \<longrightarrow> sp_source (fast_compute_plan f roi ! i)
                   = PreprocessorCompute (ff_preprocessor f)
                       (source_call_roi (sp_source (fast_compute_plan f roi ! i)))))"
proof (intro conjI allI impI)
  let ?tiles = "split_roi roi (roi_step_of (ff_axis_2d f) (roi_shape roi))"
  show len: "length (fast_compute_plan f roi) = length ?tiles"
    by (simp add: fast_compute_plan_def)
  fix i assume i: "i < length (fast_compute_plan f roi)"
  then have i': "i < length ?tiles" by (simp add: len)
  then have i'': "i < length (split (roi_interval roi) (roi_step_of (ff_axis_2d f) (roi_shape roi)))"
    by (simp add: split_roi_def)
  let ?tile = "split (roi_interval roi) (roi_step_of (ff_axis_2d f) (roi_shape roi)) ! i"
  have mem: "?tile \<in> set (split (roi_interval roi) (roi_step_of (ff_axis_2d f) (roi_shape roi)))"
    using i'' by (rule nth_mem)
  have cut: "sp_cut (fast_compute_plan f roi ! i) = ?tiles ! i"
    using i' by (simp add: fast_compute_plan_def Let_def)
  have tile: "?tiles ! i = roi\<lparr>roi_interval := ?tile\<rparr>"
    using i'' by (simp add: split_roi_def)
  show "sp_cut (fast_compute_plan f roi ! i) = ?tiles ! i" by (rule cut)
  show "roi_source (sp_cut (fast_compute_plan f roi ! i)) = roi_source roi"
    by (simp add: cut tile)
  have "coord C (shape ?tile) = 1"
    by (rule split_unit_axis [OF mem]) (simp add: roi_step_of_c)
  then show "p_c (roi_shape (sp_cut (fast_compute_plan f roi ! i))) = 1"
    unfolding cut tile by (simp add: roi_shape_def)
  have "coord T (shape ?tile) = 1"
    by (rule split_unit_axis [OF mem]) (simp add: roi_step_of_t)
  then show "p_t (roi_shape (sp_cut (fast_compute_plan f roi ! i))) = 1"
    unfolding cut tile by (simp add: roi_shape_def)
  show "source_call_roi (sp_source (fast_compute_plan f roi ! i))
            = \<lparr>roi_source = roi_source roi,
               roi_interval =
                 \<lparr>start = point_sub (start (roi_interval (sp_cut (fast_compute_plan f roi ! i))))
                            (fast_halo f),
                  stop = point_add (stop (roi_interval (sp_cut (fast_compute_plan f roi ! i))))
                           (fast_halo f)\<rparr>\<rparr>"
    unfolding cut tile using i'
    by (simp add: fast_compute_plan_def Let_def source_call_roi_def roi_enlarged_def enlarged_def
        tile)
  show "\<exists>g. sp_source (fast_compute_plan f roi ! i)
               = FilterCompute g (source_call_roi (sp_source (fast_compute_plan f roi ! i)))
            \<and> ff_kind g = GaussianSmoothing (ff_presmooth_sigma f) 3.5
            \<and> ff_axis_2d g = ff_axis_2d f \<and> ff_presmooth_sigma g = 0"
    if "ff_presmooth_sigma f > 0"
    using i' that
    by (simp add: fast_compute_plan_def Let_def source_call_roi_def GaussianSmoothing_init_def)
  show "sp_source (fast_compute_plan f roi ! i)
          = PreprocessorCompute (ff_preprocessor f)
              (source_call_roi (sp_source (fast_compute_plan f roi ! i)))"
    if "\<not> ff_presmooth_sigma f > 0"
    using i' that
    by (simp add: fast_compute_plan_def Let_def source_call_roi_def)
  fix a assume a: "ff_axis_2d f = Some a"
  have "coord a (shape ?tile) = 1"
    by (rule split_unit_axis [OF mem]) (simp add: roi_step_of_axis_2d a)
  then show "coord a (roi_shape (sp_cut (fast_compute_plan f roi ! i))) = 1"
    unfolding cut tile by (simp add: roi_shape_def)
qed


theorem fast_compute_enlarges_by_halo_witness:
  "length (fast_compute_plan presmoothed_filter corner_roi) = 1
   \<and> source_call_roi (sp_source (fast_compute_plan presmoothed_filter corner_roi ! 0))
       = \<lparr>roi_source = cube_source,
          roi_interval = \<lparr>start = \<lparr>p_x = - 30, p_y = - 30, p_z = - 30, p_t = 0, p_c = 0\<rparr>,
                          stop = \<lparr>p_x = 40, p_y = 40, p_z = 40, p_t = 1, p_c = 1\<rparr>\<rparr>\<rparr>
   \<and> (\<exists>g. sp_source (fast_compute_plan presmoothed_filter corner_roi ! 0)
             = FilterCompute g
                 (source_call_roi (sp_source (fast_compute_plan presmoothed_filter corner_roi ! 0)))
          \<and> ff_kind g = GaussianSmoothing 1 3.5)
   \<and> sp_source (fast_compute_plan plain_filter corner_roi ! 0)
       = PreprocessorCompute OpRetriever
           (source_call_roi (sp_source (fast_compute_plan plain_filter corner_roi ! 0)))"
proof -
  have tiles: "split_roi corner_roi (roi_step_of None (roi_shape corner_roi)) = [corner_roi]"
    by (simp add: split_roi_def split_def axis_tiles_def roi_step_of_def roi_shape_def shape_def
        point_sub_def Point5D_zero_def corner_roi_def)
  have l1: "length (fast_compute_plan presmoothed_filter corner_roi) = 1"
    using fast_compute_enlarges_by_halo [of presmoothed_filter corner_roi]
    by (simp add: presmoothed_filter_def tiles)
  have l2: "length (fast_compute_plan plain_filter corner_roi) = 1"
    using fast_compute_enlarges_by_halo [of plain_filter corner_roi]
    by (simp add: plain_filter_def tiles)
  have s1: "0 < ff_presmooth_sigma presmoothed_filter" "ff_presmooth_sigma presmoothed_filter = 1"
    and s2: "\<not> 0 < ff_presmooth_sigma plain_filter" "ff_preprocessor plain_filter = OpRetriever"
    by (simp_all add: presmoothed_filter_def plain_filter_def)
  have z1: "0 < length (fast_compute_plan presmoothed_filter corner_roi)" by (simp add: l1)
  have z2: "0 < length (fast_compute_plan plain_filter corner_roi)" by (simp add: l2)
  note A = fast_compute_enlarges_by_halo [of presmoothed_filter corner_roi, THEN conjunct2,
      rule_format, OF z1]
  note B = fast_compute_enlarges_by_halo [of plain_filter corner_roi, THEN conjunct2,
      rule_format, OF z2]
  from A have "sp_cut (fast_compute_plan presmoothed_filter corner_roi ! 0)
                 = split_roi corner_roi
                     (roi_step_of (ff_axis_2d presmoothed_filter) (roi_shape corner_roi)) ! 0"
    by blast
  then have cut: "sp_cut (fast_compute_plan presmoothed_filter corner_roi ! 0) = corner_roi"
    by (simp add: presmoothed_filter_def tiles)
  from A have "source_call_roi (sp_source (fast_compute_plan presmoothed_filter corner_roi ! 0))
       = \<lparr>roi_source = roi_source corner_roi,
          roi_interval =
            \<lparr>start = point_sub
                       (start (roi_interval
                          (sp_cut (fast_compute_plan presmoothed_filter corner_roi ! 0))))
                       (fast_halo presmoothed_filter),
             stop = point_add
                      (stop (roi_interval
                         (sp_cut (fast_compute_plan presmoothed_filter corner_roi ! 0))))
                      (fast_halo presmoothed_filter)\<rparr>\<rparr>"
    by blast
  then have r: "source_call_roi (sp_source (fast_compute_plan presmoothed_filter corner_roi ! 0))
       = \<lparr>roi_source = cube_source,
          roi_interval = \<lparr>start = \<lparr>p_x = - 30, p_y = - 30, p_z = - 30, p_t = 0, p_c = 0\<rparr>,
                          stop = \<lparr>p_x = 40, p_y = 40, p_z = 40, p_t = 1, p_c = 1\<rparr>\<rparr>\<rparr>"
    unfolding cut
    by (simp add: corner_roi_def fast_halo_def presmoothed_filter_def point_sub_def point_add_def
        Point5D_zero_def)
  from A s1(1) have "\<exists>g. sp_source (fast_compute_plan presmoothed_filter corner_roi ! 0)
             = FilterCompute g
                 (source_call_roi (sp_source (fast_compute_plan presmoothed_filter corner_roi ! 0)))
          \<and> ff_kind g = GaussianSmoothing (ff_presmooth_sigma presmoothed_filter) 3.5
          \<and> ff_axis_2d g = ff_axis_2d presmoothed_filter \<and> ff_presmooth_sigma g = 0"
    by blast
  then have g: "\<exists>g. sp_source (fast_compute_plan presmoothed_filter corner_roi ! 0)
             = FilterCompute g
                 (source_call_roi (sp_source (fast_compute_plan presmoothed_filter corner_roi ! 0)))
          \<and> ff_kind g = GaussianSmoothing 1 3.5"
    unfolding s1(2) by blast
  from B s2(1) have "sp_source (fast_compute_plan plain_filter corner_roi ! 0)
       = PreprocessorCompute (ff_preprocessor plain_filter)
           (source_call_roi (sp_source (fast_compute_plan plain_filter corner_roi ! 0)))"
    by blast
  then have p: "sp_source (fast_compute_plan plain_filter corner_roi ! 0)
       = PreprocessorCompute OpRetriever
           (source_call_roi (sp_source (fast_compute_plan plain_filter corner_roi ! 0)))"
    unfolding s2(2) .
  from l1 r g p show ?thesis by blast
qed

subsection \<open>Channel bookkeeping of a collection\<close>

lemma get_expected_shape_collection_c:
  "p_c (get_expected_shape (FeatureExtractorCollection fxs) s)
     = sum_list (map (\<lambda>fx. p_c (get_expected_shape fx s)) fxs)"
  by simp

lemma axis_tiles_bounds:
  "iv \<in> set (axis_tiles lo hi step) \<Longrightarrow> lo \<le> fst iv \<and> snd iv \<le> hi"
  by (auto simp: axis_tiles_def split: if_splits)

lemma split_inside:
  assumes "tile \<in> set (split r s)" "inside tile p"
  shows "inside r p"
proof -
  have "coord a (start r) \<le> coord a (start tile) \<and> coord a (stop tile) \<le> coord a (stop r)" for a
    using axis_tiles_bounds [OF split_axis_tiles [OF assms(1), of a]] by simp
  from this [of X] this [of Y] this [of Z] this [of T] this [of C] assms(2)
  show ?thesis by (auto simp: inside_def)
qed

text \<open>The steps of a leaf filter.\<close>

lemma fold_slices_frame:
  assumes "\<forall>pr \<in> set prs. \<not> inside (snd pr) p"
  shows "foldl (\<lambda>b (slc_in, slc_out). compute_slice K kid slc_in slc_out b) buf prs p = buf p"
  using assms
proof (induction prs arbitrary: buf)
  case Nil
  then show ?case by simp
next
  case (Cons pr prs)
  obtain slc_in slc_out where pr: "pr = (slc_in, slc_out)" by (cases pr)
  from Cons.prems have n: "\<not> inside slc_out p" and rest: "\<forall>pr \<in> set prs. \<not> inside (snd pr) p"
    by (simp_all add: pr)
  have "foldl (\<lambda>b (slc_in, slc_out). compute_slice K kid slc_in slc_out b) buf (pr # prs) p
          = compute_slice K kid slc_in slc_out buf p"
    using Cons.IH [OF rest, of "compute_slice K kid slc_in slc_out buf"] by (simp add: pr)
  also have "\<dots> = buf p" using n by (simp add: compute_slice_def)
  finally show ?case .
qed

lemma fold_slices_pointwise:
  assumes "buf p = buf' p"
  shows "foldl (\<lambda>b (slc_in, slc_out). compute_slice K kid slc_in slc_out b) buf prs p
           = foldl (\<lambda>b (slc_in, slc_out). compute_slice K kid slc_in slc_out b) buf' prs p"
  using assms
proof (induction prs arbitrary: buf buf')
  case Nil
  then show ?case by simp
next
  case (Cons pr prs)
  obtain slc_in slc_out where pr: "pr = (slc_in, slc_out)" by (cases pr)
  have "compute_slice K kid slc_in slc_out buf p = compute_slice K kid slc_in slc_out buf' p"
    using Cons.prems by (simp add: compute_slice_def)
  from Cons.IH [of "compute_slice K kid slc_in slc_out buf" "compute_slice K kid slc_in slc_out buf'",
      OF this]
  show ?case by (simp add: pr)
qed


lemma point_add_sub_cancel: "point_sub (point_add p d) (point_add q d) = point_sub p q"
  by (simp add: point_add_def point_sub_def)

lemma inside_translated: "inside (translated r d) (point_add p d) \<longleftrightarrow> inside r p"
  by (simp add: inside_def translated_def point_add_def)

lemma compute_slice_translated:
  "compute_slice K kid slc_in (translated out d) buf (point_add p d)
     = compute_slice K kid slc_in out (\<lambda>q. buf (point_add q d)) p"
  by (simp add: compute_slice_def inside_translated)
     (simp add: translated_def point_add_sub_cancel)

lemma fold_slices_translated:
  "foldl (\<lambda>b (slc_in, slc_out). compute_slice K kid slc_in slc_out b) buf
     (zip ins (map (\<lambda>r. translated r d) outs)) (point_add p d)
   = foldl (\<lambda>b (slc_in, slc_out). compute_slice K kid slc_in slc_out b) (\<lambda>q. buf (point_add q d))
       (zip ins outs) p"
proof (induction outs arbitrary: ins buf)
  case Nil
  then show ?case by simp
next
  case (Cons out outs)
  show ?case
  proof (cases ins)
    case Nil
    then show ?thesis by simp
  next
    case (Cons slc_in ins')
    have eq: "(\<lambda>q. compute_slice K kid slc_in (translated out d) buf (point_add q d))
                = compute_slice K kid slc_in out (\<lambda>q. buf (point_add q d))"
      by (rule ext) (rule compute_slice_translated)
    show ?thesis
      using Cons.IH [where ins = ins' and buf = "compute_slice K kid slc_in (translated out d) buf"]
      by (simp add: Cons eq)
  qed
qed

lemma axis_tiles_shift:
  "axis_tiles (lo + d) (hi + d) step = map (\<lambda>iv. (fst iv + d, snd iv + d)) (axis_tiles lo hi step)"
  by (auto simp: axis_tiles_def algebra_simps)


lemma split_translated:
  "split (translated r d) s = map (\<lambda>tile. translated tile d) (split r s)"
  unfolding split_def translated_def point_add_def
  by (simp add: axis_tiles_shift map_concat comp_def)


lemma leaf_frame:
  assumes "compute_into K (ChannelwiseFilter axis_2d n ks m kid) inp out buf = Inr buf'"
    and "\<not> inside out p"
  shows "buf' p = buf p"
proof -
  let ?outs = "split out (updated (roi_step_of axis_2d (roi_shape inp)) C m)"
  let ?prs = "zip (split_roi inp (roi_step_of axis_2d (roi_shape inp))) ?outs"
  have "\<not> inside (snd pr) p" if "pr \<in> set ?prs" for pr
  proof -
    obtain a b where pr: "pr = (a, b)" by (cases pr)
    from that have "b \<in> set ?outs" unfolding pr by (rule set_zip_rightD)
    with assms(2) show ?thesis using split_inside by (auto simp: pr)
  qed
  then have "\<forall>pr \<in> set ?prs. \<not> inside (snd pr) p" by blast
  from fold_slices_frame [OF this, of K kid buf] assms(1) show ?thesis by auto
qed

lemma leaf_pointwise:
  assumes "compute_into K (ChannelwiseFilter axis_2d n ks m kid) inp out buf1 = Inr buf1'"
    and "compute_into K (ChannelwiseFilter axis_2d n ks m kid) inp out buf2 = Inr buf2'"
    and "buf1 p = buf2 p"
  shows "buf1' p = buf2' p"
  using fold_slices_pointwise [where buf = buf1 and buf' = buf2 and p = p and K = K and kid = kid,
      OF assms(3)] assms(1,2)
  by auto

lemma leaf_translated:
  assumes "compute_into K (ChannelwiseFilter axis_2d n ks m kid) inp (translated out d) buf = Inr buf1"
    and "compute_into K (ChannelwiseFilter axis_2d n ks m kid) inp out (\<lambda>q. buf (point_add q d))
           = Inr buf2"
  shows "buf1 (point_add p d) = buf2 p"
  using assms fold_slices_translated [of K kid buf _ d _ p]
  by (auto simp: split_translated)

lemma shape_translated_to_slice: "shape (translated (to_slice_5d e) d) = e"
  by (simp add: shape_def translated_def to_slice_5d_def point_sub_def point_add_def
      Point5D_zero_def)

lemma channel_offset_Cons:
  "channel_offset (fx # fxs) s (Suc k) = p_c (get_expected_shape fx s) + channel_offset fxs s k"
  "channel_offset fxs s 0 = 0"
  by (simp_all add: channel_offset_def)

lemma compute_children_closed_form:
  "compute_children K fxs inp offset buf
     = compute_each K inp
         (map (\<lambda>k. (fxs ! k, child_out_roi fxs (roi_shape inp) offset k)) [0..<length fxs]) buf"
proof (induction fxs arbitrary: offset buf)
  case Nil
  then show ?case by simp
next
  case (Cons fx fxs)
  let ?s = "roi_shape inp"
  let ?e = "get_expected_shape fx ?s"
  let ?offset' = "point_add offset (Point5D_zero\<lparr>p_c := p_c ?e\<rparr>)"
  have first: "child_out_roi (fx # fxs) ?s offset 0 = translated (to_slice_5d ?e) offset"
    by (simp add: child_out_roi_def channel_offset_Cons)
  have later: "child_out_roi (fx # fxs) ?s offset (Suc k) = child_out_roi fxs ?s ?offset' k" for k
    by (cases offset)
      (simp add: child_out_roi_def channel_offset_Cons point_add_def Point5D_zero_def add.assoc)
  have idx: "map (\<lambda>k. ((fx # fxs) ! k, child_out_roi (fx # fxs) ?s offset k)) [0..<length (fx # fxs)]
               = (fx, translated (to_slice_5d ?e) offset)
                 # map (\<lambda>k. (fxs ! k, child_out_roi fxs ?s ?offset' k)) [0..<length fxs]"
    by (simp add: upt_conv_Cons first later map_Suc_upt [symmetric] del: upt_Suc)
  show ?case
    unfolding idx
    by (simp add: Let_def shape_translated_to_slice Cons.IH split: sum.splits)
qed


lemma leaf_total:
  "\<exists>buf'. compute_into K (ChannelwiseFilter axis_2d n ks m kid) inp out buf = Inr buf'"
  by simp

lemma translated_translated: "translated (translated r a) b = translated r (point_add a b)"
  by (simp add: translated_def point_add_def add.assoc)

lemma start_translated_to_slice: "start (translated (to_slice_5d e) d) = d"
  by (simp add: translated_def to_slice_5d_def point_add_def Point5D_zero_def)

lemma two_leaves:
  fixes K :: "nat \<Rightarrow> data_roi \<Rightarrow> point5d \<Rightarrow> 'v"
  assumes a: "a = ChannelwiseFilter axis_a n_a ks_a m_a kid_a" and b: "b = ChannelwiseFilter axis_b n_b ks_b m_b kid_b"
    and d: "d = Point5D_zero\<lparr>p_c := p_c (roi_shape inp) * m_a\<rparr>"
  shows "\<exists>blk sa sb.
           compute K fresh (FeatureExtractorCollection [a, b]) inp = Inr blk
           \<and> compute K fresh a inp = Inr sa
           \<and> compute K (\<lambda>q. fresh (point_add q d)) b inp = Inr sb
           \<and> p_c (shape (arr_roi blk)) = p_c (roi_shape inp) * m_a + p_c (roi_shape inp) * m_b
           \<and> start (arr_roi sa) = start (arr_roi blk)
           \<and> start (arr_roi sb) = start (arr_roi blk)
           \<and> p_c (shape (arr_roi sa)) = p_c (roi_shape inp) * m_a
           \<and> p_c (shape (arr_roi sb)) = p_c (roi_shape inp) * m_b
           \<and> (\<forall>p. inside (arr_roi sa) p \<longrightarrow> arr_value blk p = arr_value sa p)
           \<and> (\<forall>p. inside (arr_roi sb) p \<longrightarrow> arr_value blk (point_add p d) = arr_value sb p)"
proof -
  let ?s = "roi_shape inp"
  let ?o = "start (roi_interval inp)"
  let ?ea = "get_expected_shape a ?s"
  let ?eb = "get_expected_shape b ?s"
  let ?ec = "get_expected_shape (FeatureExtractorCollection [a, b]) ?s"
  let ?Ra = "translated (to_slice_5d ?ea) ?o"
  let ?Rsolo = "translated (to_slice_5d ?eb) ?o"
  let ?Rb = "translated ?Rsolo d"
  let ?out = "translated (to_slice_5d ?ec) ?o"
  have ea: "p_c ?ea = p_c ?s * m_a" and eb: "p_c ?eb = p_c ?s * m_b" by (simp_all add: a b)
  have d': "Point5D_zero\<lparr>p_c := p_c ?ea\<rparr> = d"
    by (simp add: ea d)
  obtain b1 where b1: "compute_into K a inp ?Ra fresh = Inr b1"
    unfolding a using leaf_total by blast
  obtain b2 where b2: "compute_into K b inp ?Rb b1 = Inr b2"
    unfolding b using leaf_total by blast
  obtain b3 where b3: "compute_into K b inp ?Rsolo (\<lambda>q. fresh (point_add q d)) = Inr b3"
    unfolding b using leaf_total by blast
  obtain b4 where b4: "compute_into K b inp ?Rsolo (\<lambda>q. b1 (point_add q d)) = Inr b4"
    unfolding b using leaf_total by blast
  have coll: "compute_into K (FeatureExtractorCollection [a, b]) inp ?out fresh = Inr b2"
    using b1 b2
    by (simp add: shape_translated_to_slice start_translated_to_slice Let_def d'
        translated_translated del: get_expected_shape.simps)
  have blk: "compute K fresh (FeatureExtractorCollection [a, b]) inp
               = Inr \<lparr>arr_roi = ?out, arr_value = b2\<rparr>"
    using coll by (simp add: compute_def Let_def del: compute_into.simps get_expected_shape.simps)
  have sa: "compute K fresh a inp = Inr \<lparr>arr_roi = ?Ra, arr_value = b1\<rparr>"
    using b1 by (simp add: compute_def Let_def del: compute_into.simps get_expected_shape.simps)
  have sb: "compute K (\<lambda>q. fresh (point_add q d)) b inp = Inr \<lparr>arr_roi = ?Rsolo, arr_value = b3\<rparr>"
    using b3 by (simp add: compute_def Let_def del: compute_into.simps get_expected_shape.simps)
  have first: "b2 p = b1 p" if "inside ?Ra p" for p
  proof -
    from that have "p_c p < p_c ?o + p_c ?ea"
      by (simp add: inside_def translated_def to_slice_5d_def point_add_def Point5D_zero_def)
    then have "\<not> inside ?Rb p"
      by (simp add: inside_def translated_def to_slice_5d_def point_add_def Point5D_zero_def d ea)
    from leaf_frame [OF b2 [unfolded b] this [unfolded b]] show ?thesis .
  qed
  have second: "b2 (point_add p d) = b3 p" if "inside ?Rsolo p" for p
  proof -
    have "b2 (point_add p d) = b4 p"
      by (rule leaf_translated [OF b2 [unfolded b] b4 [unfolded b]])
    also have "b4 p = b3 p"
    proof (rule leaf_pointwise [OF b4 [unfolded b] b3 [unfolded b]])
      from that have "p_c ?o \<le> p_c p"
        by (simp add: inside_def translated_def to_slice_5d_def point_add_def Point5D_zero_def)
      then have "\<not> inside ?Ra (point_add p d)"
        by (simp add: inside_def translated_def to_slice_5d_def point_add_def Point5D_zero_def
            d ea)
      from leaf_frame [OF b1 [unfolded a] this [unfolded a]]
      show "b1 (point_add p d) = fresh (point_add p d)" .
    qed
    finally show ?thesis .
  qed
  have c: "p_c (shape ?out) = p_c ?s * m_a + p_c ?s * m_b"
    by (simp add: shape_translated_to_slice a b)
  show ?thesis
    unfolding blk sa sb
    using first second c ea eb
    by (simp add: shape_translated_to_slice start_translated_to_slice
        del: get_expected_shape.simps)
qed


lemma child_out_roi_channels:
  assumes "k < length fxs"
  shows "shape (child_out_roi fxs s origin k) = get_expected_shape (fxs ! k) s"
    and "p_c (start (child_out_roi fxs s origin k)) = p_c origin + channel_offset fxs s k"
    and "p_c (stop (child_out_roi fxs s origin k)) = p_c origin + channel_offset fxs s (Suc k)"
proof -
  show "shape (child_out_roi fxs s origin k) = get_expected_shape (fxs ! k) s"
    by (simp add: child_out_roi_def shape_translated_to_slice)
  show "p_c (start (child_out_roi fxs s origin k)) = p_c origin + channel_offset fxs s k"
    by (simp add: child_out_roi_def start_translated_to_slice)
  have "channel_offset fxs s (Suc k) = channel_offset fxs s k + p_c (get_expected_shape (fxs ! k) s)"
    using assms by (simp add: channel_offset_def take_Suc_conv_app_nth)
  then show "p_c (stop (child_out_roi fxs s origin k)) = p_c origin + channel_offset fxs s (Suc k)"
    by (simp add: child_out_roi_def translated_def to_slice_5d_def point_add_def)
qed

text \<open>
  C3: the expected channel count of a collection is the sum of its children's expected
  channel counts; \<open>compute_into\<close> asserts the shape of the output and then runs the
  children in order, child \<open>k\<close> on the view whose shape is the child's own expected
  shape and whose channels start where the view of child \<open>k - 1\<close> stops (the offset is
  the sum of the channel counts before it). For two channelwise filters the block of the
  collection has the channels of both, its first channels hold what the first filter
  computes alone, and the channels after them hold, shifted by the first filter's channel
  count, what the second filter computes alone; with multipliers 1 and 3 on a 1-channel
  input these are channels [0,1) and [1,4) of 4. The blocks are compared cell by cell on
  freshly allocated memory with the same content.
\<close>

theorem collection_channel_bookkeeping:
  fixes K :: "nat \<Rightarrow> data_roi \<Rightarrow> point5d \<Rightarrow> 'v"
  shows "p_c (get_expected_shape (FeatureExtractorCollection fxs) s)
           = sum_list (map (\<lambda>fx. p_c (get_expected_shape fx s)) fxs)
   \<and> compute_into K (FeatureExtractorCollection fxs) inp out buf
       = (if shape out \<noteq> get_expected_shape (FeatureExtractorCollection fxs) (roi_shape inp)
          then Inl AssertionError
          else compute_each K inp
                 (map (\<lambda>k. (fxs ! k, child_out_roi fxs (roi_shape inp) (start out) k))
                    [0..<length fxs]) buf)
   \<and> (\<forall>k < length fxs.
         shape (child_out_roi fxs s origin k) = get_expected_shape (fxs ! k) s
         \<and> p_c (start (child_out_roi fxs s origin k)) = p_c origin + channel_offset fxs s k
         \<and> p_c (stop (child_out_roi fxs s origin k)) = p_c origin + channel_offset fxs s (Suc k))
   \<and> (\<exists>blk sa sb.
         compute K fresh
           (FeatureExtractorCollection
              [ChannelwiseFilter axis_a n_a ks_a m_a kid_a, ChannelwiseFilter axis_b n_b ks_b m_b kid_b]) inp = Inr blk
         \<and> compute K fresh (ChannelwiseFilter axis_a n_a ks_a m_a kid_a) inp = Inr sa
         \<and> compute K (\<lambda>q. fresh (point_add q (Point5D_zero\<lparr>p_c := p_c (roi_shape inp) * m_a\<rparr>)))
             (ChannelwiseFilter axis_b n_b ks_b m_b kid_b) inp = Inr sb
         \<and> p_c (shape (arr_roi blk)) = p_c (roi_shape inp) * m_a + p_c (roi_shape inp) * m_b
         \<and> start (arr_roi sa) = start (arr_roi blk)
         \<and> start (arr_roi sb) = start (arr_roi blk)
         \<and> p_c (shape (arr_roi sa)) = p_c (roi_shape inp) * m_a
         \<and> p_c (shape (arr_roi sb)) = p_c (roi_shape inp) * m_b
         \<and> (\<forall>p. inside (arr_roi sa) p \<longrightarrow> arr_value blk p = arr_value sa p)
         \<and> (\<forall>p. inside (arr_roi sb) p
                \<longrightarrow> arr_value blk (point_add p (Point5D_zero\<lparr>p_c := p_c (roi_shape inp) * m_a\<rparr>))
                    = arr_value sb p))"
proof (intro conjI)
  show "p_c (get_expected_shape (FeatureExtractorCollection fxs) s)
          = sum_list (map (\<lambda>fx. p_c (get_expected_shape fx s)) fxs)"
    by simp
  show "compute_into K (FeatureExtractorCollection fxs) inp out buf
       = (if shape out \<noteq> get_expected_shape (FeatureExtractorCollection fxs) (roi_shape inp)
          then Inl AssertionError
          else compute_each K inp
                 (map (\<lambda>k. (fxs ! k, child_out_roi fxs (roi_shape inp) (start out) k))
                    [0..<length fxs]) buf)"
    by (simp add: compute_children_closed_form del: get_expected_shape.simps)
  show "\<forall>k < length fxs.
         shape (child_out_roi fxs s origin k) = get_expected_shape (fxs ! k) s
         \<and> p_c (start (child_out_roi fxs s origin k)) = p_c origin + channel_offset fxs s k
         \<and> p_c (stop (child_out_roi fxs s origin k)) = p_c origin + channel_offset fxs s (Suc k)"
    using child_out_roi_channels by blast
  show "\<exists>blk sa sb.
         compute K fresh
           (FeatureExtractorCollection
              [ChannelwiseFilter axis_a n_a ks_a m_a kid_a, ChannelwiseFilter axis_b n_b ks_b m_b kid_b]) inp = Inr blk
         \<and> compute K fresh (ChannelwiseFilter axis_a n_a ks_a m_a kid_a) inp = Inr sa
         \<and> compute K (\<lambda>q. fresh (point_add q (Point5D_zero\<lparr>p_c := p_c (roi_shape inp) * m_a\<rparr>)))
             (ChannelwiseFilter axis_b n_b ks_b m_b kid_b) inp = Inr sb
         \<and> p_c (shape (arr_roi blk)) = p_c (roi_shape inp) * m_a + p_c (roi_shape inp) * m_b
         \<and> start (arr_roi sa) = start (arr_roi blk)
         \<and> start (arr_roi sb) = start (arr_roi blk)
         \<and> p_c (shape (arr_roi sa)) = p_c (roi_shape inp) * m_a
         \<and> p_c (shape (arr_roi sb)) = p_c (roi_shape inp) * m_b
         \<and> (\<forall>p. inside (arr_roi sa) p \<longrightarrow> arr_value blk p = arr_value sa p)
         \<and> (\<forall>p. inside (arr_roi sb) p
                \<longrightarrow> arr_value blk (point_add p (Point5D_zero\<lparr>p_c := p_c (roi_shape inp) * m_a\<rparr>))
                    = arr_value sb p)"
    by (rule two_leaves [OF refl refl refl])
qed

lemma solo_three:
  "\<exists>sb. compute index_kernel (\<lambda>q. 0) filter_three small_roi = Inr sb
     \<and> inside (arr_roi sb) \<lparr>p_x = 3, p_y = 5, p_z = 0, p_t = 0, p_c = 1\<rparr>
     \<and> arr_value sb \<lparr>p_x = 3, p_y = 5, p_z = 0, p_t = 0, p_c = 1\<rparr> = 2111"
  by (simp add: compute_def filter_three_def small_roi_def roi_shape_def shape_def point_sub_def
      split_roi_def split_def axis_tiles_def roi_step_of_def translated_def to_slice_5d_def
      point_add_def Point5D_zero_def compute_slice_def inside_def index_kernel_def Let_def)

lemma solo_one:
  "\<exists>sa. compute index_kernel (\<lambda>q. 0) filter_one small_roi = Inr sa
     \<and> inside (arr_roi sa) \<lparr>p_x = 3, p_y = 5, p_z = 0, p_t = 0, p_c = 0\<rparr>
     \<and> arr_value sa \<lparr>p_x = 3, p_y = 5, p_z = 0, p_t = 0, p_c = 0\<rparr> = 1011"
  by (simp add: compute_def filter_one_def small_roi_def roi_shape_def shape_def point_sub_def
      split_roi_def split_def axis_tiles_def roi_step_of_def translated_def to_slice_5d_def
      point_add_def Point5D_zero_def compute_slice_def inside_def index_kernel_def Let_def)


theorem collection_channel_bookkeeping_witness:
  "\<exists>blk. compute index_kernel (\<lambda>q. 0) (FeatureExtractorCollection [filter_one, filter_three])
            small_roi = Inr blk
     \<and> p_c (shape (arr_roi blk)) = 4
     \<and> arr_value blk \<lparr>p_x = 3, p_y = 5, p_z = 0, p_t = 0, p_c = 0\<rparr> = 1011
     \<and> arr_value blk \<lparr>p_x = 3, p_y = 5, p_z = 0, p_t = 0, p_c = 2\<rparr> = 2111"
proof -
  let ?ks = "\<lparr>p_x = 1, p_y = 1, p_z = 1, p_t = 1, p_c = 1\<rparr>"
  have c: "p_c (roi_shape small_roi) = 1"
    by (simp add: small_roi_def roi_shape_def shape_def point_sub_def)
  note T = collection_channel_bookkeeping [where K = index_kernel and fresh = "\<lambda>q. 0"
      and inp = small_roi and axis_a = None and n_a = 1 and ks_a = ?ks and m_a = 1 and kid_a = 1
      and axis_b = None and n_b = 1 and ks_b = ?ks and m_b = 3 and kid_b = 2,
      THEN conjunct2, THEN conjunct2, THEN conjunct2,
      folded filter_one_def filter_three_def, unfolded c]
  then obtain blk sa sb
    where blk: "compute index_kernel (\<lambda>q. 0) (FeatureExtractorCollection [filter_one, filter_three])
                  small_roi = Inr blk"
      and sa: "compute index_kernel (\<lambda>q. 0) filter_one small_roi = Inr sa"
      and sb: "compute index_kernel (\<lambda>q. 0) filter_three small_roi = Inr sb"
      and n: "p_c (shape (arr_roi blk)) = 1 * 1 + 1 * 3"
      and first: "\<forall>p. inside (arr_roi sa) p \<longrightarrow> arr_value blk p = arr_value sa p"
      and second: "\<forall>p. inside (arr_roi sb) p
                     \<longrightarrow> arr_value blk (point_add p (Point5D_zero\<lparr>p_c := 1 * 1\<rparr>)) = arr_value sb p"
    by blast
  from solo_one sa
  have "inside (arr_roi sa) \<lparr>p_x = 3, p_y = 5, p_z = 0, p_t = 0, p_c = 0\<rparr>"
    and "arr_value sa \<lparr>p_x = 3, p_y = 5, p_z = 0, p_t = 0, p_c = 0\<rparr> = 1011"
    by auto
  with first have v1: "arr_value blk \<lparr>p_x = 3, p_y = 5, p_z = 0, p_t = 0, p_c = 0\<rparr> = 1011"
    by simp
  from solo_three sb
  have "inside (arr_roi sb) \<lparr>p_x = 3, p_y = 5, p_z = 0, p_t = 0, p_c = 1\<rparr>"
    and "arr_value sb \<lparr>p_x = 3, p_y = 5, p_z = 0, p_t = 0, p_c = 1\<rparr> = 2111"
    by auto
  with second
  have "arr_value blk (point_add \<lparr>p_x = 3, p_y = 5, p_z = 0, p_t = 0, p_c = 1\<rparr>
                         (Point5D_zero\<lparr>p_c := 1 * 1\<rparr>)) = 2111"
    by simp
  then have v2: "arr_value blk \<lparr>p_x = 3, p_y = 5, p_z = 0, p_t = 0, p_c = 2\<rparr> = 2111"
    by (simp add: point_add_def Point5D_zero_def)
  from blk n v1 v2 show ?thesis by simp
qed

subsection \<open>The operator cache\<close>


























lemma lru_fill_step:
  assumes "0 < m"
  shows "(if length (take m xs) \<ge> m then butlast (take m xs) else take m xs) = take (m - 1) xs"
proof (cases "m \<le> length xs")
  case True
  then show ?thesis by (simp add: butlast_take)
next
  case False
  then show ?thesis by simp
qed











end
